theory Spec2Isabelle
  imports Complex_Main
begin

section \<open>Confidence scoring (BaseAgent.calculateConfidence)\<close>

text \<open>
  The four factors are JavaScript numbers. They are modelled as exact real numbers; on the
  integer tuples of the intended range every intermediate value is a multiple of 1/20, so
  the final \<open>Math.round(confidence * 100) / 100\<close> of the source is the step that
  brings the computed value back to the two-decimal result.
\<close>

record factors =
  complexity :: real
  familiarity :: real
  riskLevel :: real
  dataQuality :: real

text \<open>\<open>Math.round\<close> rounds to the nearest integer, halves towards plus infinity.\<close>

definition Math_round :: "real \<Rightarrow> int" where
  "Math_round x = \<lfloor>x + 1 / 2\<rfloor>"

definition calculateConfidence :: "factors \<Rightarrow> real" where
  "calculateConfidence f =
     (let baseConfidence = (familiarity f + dataQuality f) / 2;
          complexityPenalty = (complexity f - 1) * (1 / 10);
          riskPenalty = (riskLevel f - 1) * (15 / 100);
          confidence = max (1 / 10) (min 1 (baseConfidence / 5 - complexityPenalty - riskPenalty))
      in of_int (Math_round (confidence * 100)) / 100)"

text \<open>
  The scoring contract in the words of the specification: base, the two penalties, the raw
  score, the clamp to [0.10, 1.00] and the rounding to two decimal places.
\<close>

definition clamp_spec :: "real \<Rightarrow> real \<Rightarrow> real \<Rightarrow> real" where
  "clamp_spec lo hi x = (if x < lo then lo else if hi < x then hi else x)"

definition round2_spec :: "real \<Rightarrow> real" where
  "round2_spec x = of_int (round (100 * x)) / 100"

definition raw_spec :: "int \<Rightarrow> int \<Rightarrow> int \<Rightarrow> int \<Rightarrow> real" where
  "raw_spec c f r d =
     ((of_int f + of_int d) / 2) / 5 - (of_int c - 1) * (10 / 100) - (of_int r - 1) * (15 / 100)"

definition confidenceScorer_spec :: "int \<Rightarrow> int \<Rightarrow> int \<Rightarrow> int \<Rightarrow> real" where
  "confidenceScorer_spec c f r d = round2_spec (clamp_spec (10 / 100) 1 (raw_spec c f r d))"

definition in_range :: "int \<Rightarrow> bool" where
  "in_range k = (1 \<le> k \<and> k \<le> 5)"

definition mk_factors :: "int \<Rightarrow> int \<Rightarrow> int \<Rightarrow> int \<Rightarrow> factors" where
  "mk_factors c f r d =
     \<lparr>complexity = of_int c, familiarity = of_int f, riskLevel = of_int r, dataQuality = of_int d\<rparr>"

section \<open>Agent orchestration (AgentOrchestrator)\<close>

datatype AgentType = architect | developer | dba | qa | business | po

text \<open>A thrown JavaScript \<open>Error\<close> is a value carrying its message.\<close>

datatype error = Error string

text \<open>\<open>suggestions\<close> is an optional field of \<open>AgentResponse\<close>.\<close>

record AgentResponse =
  agent :: AgentType
  response :: string
  confidence :: real
  suggestions :: "string list option"

text \<open>
  An agent is its \<open>analyze\<close> method: from the analysis context to a response, or a
  thrown error. The context is only handed through by the orchestrator, so its type is
  left open.
\<close>

type_synonym 'c Agent = "'c \<Rightarrow> error + AgentResponse"

text \<open>The registry \<open>Map<AgentType, any>\<close>, in insertion order.\<close>

type_synonym 'c Registry = "(AgentType \<times> 'c Agent) list"

definition initializeAgents ::
  "'c Agent \<Rightarrow> 'c Agent \<Rightarrow> 'c Agent \<Rightarrow> 'c Agent \<Rightarrow> 'c Agent \<Rightarrow> 'c Agent \<Rightarrow> 'c Registry" where
  "initializeAgents architectAgent developerAgent dbaAgent qaAgent businessAgent poAgent =
     [(architect, architectAgent), (developer, developerAgent), (dba, dbaAgent),
      (qa, qaAgent), (business, businessAgent), (po, poAgent)]"

fun agentName :: "AgentType \<Rightarrow> string" where
  "agentName architect = ''architect''"
| "agentName developer = ''developer''"
| "agentName dba = ''dba''"
| "agentName qa = ''qa''"
| "agentName business = ''business''"
| "agentName po = ''po''"

text \<open>
  The response substituted in the \<open>catch\<close> branch of the fan-out. The text is the
  UTF-8 encoding of the source literal (a cross mark, then the message with its accent).
\<close>

definition errorResponse :: "AgentType \<Rightarrow> AgentResponse" where
  "errorResponse type =
     \<lparr>agent = type,
      response = [CHR 0xE2, CHR 0x9D, CHR 0x8C] @ '' Erro na an'' @ [CHR 0xC3, CHR 0xA1]
                   @ ''lise do agente '' @ agentName type,
      confidence = 1 / 10,
      suggestions = Some [''Revisar manualmente'']\<rparr>"

definition analyzeOne :: "'c \<Rightarrow> AgentType \<times> 'c Agent \<Rightarrow> AgentResponse" where
  "analyzeOne ctx entry =
     (case snd entry ctx of Inr r \<Rightarrow> r | Inl e \<Rightarrow> errorResponse (fst entry))"

text \<open>\<open>String.prototype.includes\<close>: the keyword occurs as a contiguous substring.\<close>

fun startsWith :: "string \<Rightarrow> string \<Rightarrow> bool" where
  "startsWith s [] = True"
| "startsWith [] (k # ks) = False"
| "startsWith (c # cs) (k # ks) = (c = k \<and> startsWith cs ks)"

fun String_includes :: "string \<Rightarrow> string \<Rightarrow> bool" where
  "String_includes [] k = (k = [])"
| "String_includes (c # cs) k = (startsWith (c # cs) k \<or> String_includes cs k)"

definition priorityKeywords :: "string list" where
  "priorityKeywords =
     [''cr'' @ [CHR 0xC3, CHR 0xAD] @ ''tico'', ''urgente'',
      ''aten'' @ [CHR 0xC3, CHR 0xA7, CHR 0xC3, CHR 0xA3] @ ''o'', ''impacto'']"

text \<open>
  \<open>toLowerCase\<close> of JavaScript follows the Unicode case mapping; it is a parameter
  \<open>lower\<close> of the model. \<open>priorityOf\<close> is the value \<open>aPriority\<close> of the comparator.
\<close>

definition hasPriority :: "(string \<Rightarrow> string) \<Rightarrow> string \<Rightarrow> bool" where
  "hasPriority lower a = list_ex (\<lambda>keyword. String_includes (lower a) keyword) priorityKeywords"

definition priorityOf :: "(string \<Rightarrow> string) \<Rightarrow> string \<Rightarrow> int" where
  "priorityOf lower a = (if hasPriority lower a then 1 else 0)"

text \<open>\<open>Array.from(new Set(xs))\<close>: the first occurrence of every element, in order.\<close>

fun Set_add_all :: "'a list \<Rightarrow> 'a list \<Rightarrow> 'a list" where
  "Set_add_all seen [] = seen"
| "Set_add_all seen (x # xs) = Set_add_all (if x \<in> set seen then seen else seen @ [x]) xs"

definition Array_from_Set :: "'a list \<Rightarrow> 'a list" where
  "Array_from_Set xs = Set_add_all [] xs"

definition collectSuggestions :: "AgentResponse list \<Rightarrow> string list" where
  "collectSuggestions rs =
     concat (map (\<lambda>r. case suggestions r of None \<Rightarrow> [] | Some ss \<Rightarrow> ss) rs)"

text \<open>
  \<open>Array.prototype.sort\<close> is stable, and the comparator \<open>bPriority - aPriority\<close> orders
  by descending priority: a stable sort on the key \<open>- aPriority\<close>.
\<close>

definition generateRecommendations :: "(string \<Rightarrow> string) \<Rightarrow> AgentResponse list \<Rightarrow> string list" where
  "generateRecommendations lower rs =
     (let allSuggestions = collectSuggestions rs;
          uniqueSuggestions = Array_from_Set allSuggestions;
          prioritizedSuggestions = sort_key (\<lambda>a. - priorityOf lower a) uniqueSuggestions
      in take 10 prioritizedSuggestions)"

text \<open>
  The result of an orchestration run. The fields \<open>consensus\<close> and \<open>summary\<close> of the
  source are texts formatted from \<open>responses\<close> (a regular-expression replacement and
  number formatting); they are not part of this record.
\<close>

record MultiAgentAnalysis =
  responses :: "AgentResponse list"
  recommendations :: "string list"

text \<open>
  \<open>analyzeWithAllAgents\<close>: every registered agent runs inside its own \<open>try\<close>; the
  outer \<open>catch\<close> rethrows, so the result type keeps the error alternative.
\<close>

definition analyzeWithAllAgents ::
  "(string \<Rightarrow> string) \<Rightarrow> 'c Registry \<Rightarrow> 'c \<Rightarrow> error + MultiAgentAnalysis" where
  "analyzeWithAllAgents lower agents ctx =
     (let rs = map (analyzeOne ctx) agents
      in Inr \<lparr>responses = rs, recommendations = generateRecommendations lower rs\<rparr>)"

text \<open>
  The loop of \<open>analyzeWithSpecificAgents\<close>: a requested type that is not registered is
  skipped (\<open>if (agent)\<close>), a registered one contributes its response or the degraded one.
\<close>

fun specificResponses :: "'c Registry \<Rightarrow> 'c \<Rightarrow> AgentType list \<Rightarrow> AgentResponse list" where
  "specificResponses agents ctx [] = []"
| "specificResponses agents ctx (agentType # rest) =
     (case map_of agents agentType of
        None \<Rightarrow> specificResponses agents ctx rest
      | Some a \<Rightarrow> analyzeOne ctx (agentType, a) # specificResponses agents ctx rest)"

definition analyzeWithSpecificAgents ::
  "(string \<Rightarrow> string) \<Rightarrow> 'c Registry \<Rightarrow> 'c \<Rightarrow> AgentType list \<Rightarrow> MultiAgentAnalysis" where
  "analyzeWithSpecificAgents lower agents ctx agentTypes =
     (let rs = specificResponses agents ctx agentTypes
      in \<lparr>responses = rs, recommendations = generateRecommendations lower rs\<rparr>)"

text \<open>
  The ranking in the words of the specification: the de-duplicated union, the suggestions
  with an urgency keyword before all others (each group in its original order), the first 10.
\<close>

definition recommendations_spec :: "(string \<Rightarrow> string) \<Rightarrow> string list \<Rightarrow> string list" where
  "recommendations_spec lower unique =
     take 10 (filter (hasPriority lower) unique @ filter (\<lambda>a. \<not> hasPriority lower a) unique)"

section \<open>The store (DatabaseService) and its tables\<close>

datatype TodoStatus = todo_pending | todo_in_progress | todo_completed | todo_cancelled | todo_blocked

datatype TaskStatus = pending | in_progress | completed | failed | skipped

text \<open>Values of the untyped \<open>session_data\<close> record: a text, a time stamp, or nothing.\<close>

datatype jsonv = Str string | Date nat | Undefined

text \<open>
  A row of \<open>context_stack\<close>. Times are natural numbers; \<open>c_id\<close> is optional as in
  the schema and is set by the store on insert.
\<close>

record ContextStack =
  c_id :: "nat option"
  c_project_id :: string
  c_todo_id :: "string option"
  c_task_id :: "nat option"
  c_file_path :: "string option"
  c_line_number :: "nat option"
  c_cursor_position :: "nat option"
  c_working_directory :: "string option"
  c_open_files :: "string list"
  c_terminal_output :: "string option"
  c_session_data :: "(string \<times> jsonv) list"
  c_next_action :: "string option"
  c_notes :: "string option"
  c_saved_at :: nat
  c_resumed_at :: "nat option"
  c_is_active :: bool
  c_stack_depth :: nat
  c_parent_context_id :: "nat option"

text \<open>
  The fields of a \<open>Todo\<close> that the modelled operations read or write; its descriptive
  fields (title, type, priority, consensus snapshot, tags and so on) are set once on
  creation and are left out.
\<close>

record Todo =
  td_id :: string
  td_project_id :: string
  td_status :: TodoStatus
  td_progress_percentage :: int
  td_current_task_index :: nat
  td_created_at :: nat
  td_completed_at :: "nat option"

text \<open>An entry of \<open>corrections_applied\<close>: time stamp, error text, analysis summary.\<close>

type_synonym correction = "nat \<times> string \<times> string"

record Task =
  task_id :: "nat option"
  todo_id :: string
  sequence_number :: nat
  title :: string
  description :: "string option"
  owner_agent :: AgentType
  status :: TaskStatus
  code_snippet :: "string option"
  code_language :: string
  test_scenarios :: "string list"
  started_at :: "nat option"
  completed_at :: "nat option"
  execution_time_seconds :: "nat option"
  error_count :: nat
  last_error :: "string option"
  corrections_applied :: "correction list"
  requires_confirmation :: bool
  auto_confirmed :: bool
  confirmed_by :: "string option"
  confirmed_at :: "nat option"
  dependencies :: "nat list"
  completion_criteria :: "string list"

text \<open>
  The tables, each in insertion order, and the serial counters from which the store draws
  the primary keys of new \<open>tasks\<close> and \<open>context_stack\<close> rows. The store is taken to
  answer every request; a request that finds no row where exactly one is demanded
  (\<open>.single()\<close>) is the error the source throws.
\<close>

record Store =
  todos :: "Todo list"
  tasks :: "Task list"
  context_stack :: "ContextStack list"
  next_task_id :: nat
  next_context_id :: nat

text \<open>
  \<open>.order(col, {ascending: false}).limit(1)\<close>: the row with the greatest value, the
  earliest such row of the table among equals.
\<close>

fun latest_by :: "('a \<Rightarrow> nat) \<Rightarrow> 'a list \<Rightarrow> 'a option" where
  "latest_by f [] = None"
| "latest_by f (x # xs) =
     (case latest_by f xs of
        None \<Rightarrow> Some x
      | Some y \<Rightarrow> if f x < f y then Some y else Some x)"

subsection \<open>Context rows\<close>

text \<open>
  \<open>DatabaseService.saveContext\<close>: first every row of the project is set inactive, then
  the new row is inserted as active with a fresh id and the current time. The fields \<open>c_id\<close>
  and \<open>c_saved_at\<close> of the argument are not part of its type in the source and are not read.
\<close>

definition DB_saveContext :: "nat \<Rightarrow> ContextStack \<Rightarrow> Store \<Rightarrow> ContextStack \<times> Store" where
  "DB_saveContext now context store =
     (let deactivated = map (\<lambda>c. if c_project_id c = c_project_id context
                                   then c\<lparr>c_is_active := False\<rparr> else c) (context_stack store);
          data = context\<lparr>c_id := Some (next_context_id store), c_saved_at := now,
                         c_is_active := True\<rparr>
      in (data, store\<lparr>context_stack := deactivated @ [data],
                      next_context_id := Suc (next_context_id store)\<rparr>))"

definition DB_getActiveContext :: "string \<Rightarrow> Store \<Rightarrow> ContextStack option" where
  "DB_getActiveContext projectId store =
     latest_by c_saved_at
       (filter (\<lambda>c. c_project_id c = projectId \<and> c_is_active c) (context_stack store))"

definition DB_getContext :: "nat \<Rightarrow> Store \<Rightarrow> ContextStack option" where
  "DB_getContext i store = find (\<lambda>c. c_id c = Some i) (context_stack store)"

text \<open>
  \<open>DatabaseService.updateContext\<close>: the partial update is a function on rows; no row
  with the id is the thrown error.
\<close>

definition DB_updateContext ::
  "nat \<Rightarrow> (ContextStack \<Rightarrow> ContextStack) \<Rightarrow> Store \<Rightarrow> error + (ContextStack \<times> Store)" where
  "DB_updateContext i updates store =
     (case find (\<lambda>c. c_id c = Some i) (context_stack store) of
        None \<Rightarrow> Inl (Error ''Erro ao atualizar contexto'')
      | Some c \<Rightarrow>
          Inr (updates c,
               store\<lparr>context_stack :=
                 map (\<lambda>r. if c_id r = Some i then updates r else r) (context_stack store)\<rparr>))"

subsection \<open>Todo and task rows\<close>

definition DB_getTodo :: "string \<Rightarrow> Store \<Rightarrow> Todo option" where
  "DB_getTodo i store = find (\<lambda>t. td_id t = i) (todos store)"

definition DB_getActiveTodo :: "string \<Rightarrow> Store \<Rightarrow> Todo option" where
  "DB_getActiveTodo projectId store =
     latest_by td_created_at
       (filter (\<lambda>t. td_project_id t = projectId \<and> td_status t = todo_in_progress) (todos store))"

definition DB_updateTodo :: "string \<Rightarrow> (Todo \<Rightarrow> Todo) \<Rightarrow> Store \<Rightarrow> error + (Todo \<times> Store)" where
  "DB_updateTodo i updates store =
     (case find (\<lambda>t. td_id t = i) (todos store) of
        None \<Rightarrow> Inl (Error ''Erro ao atualizar TODO'')
      | Some t \<Rightarrow>
          Inr (updates t,
               store\<lparr>todos := map (\<lambda>r. if td_id r = i then updates r else r) (todos store)\<rparr>))"

definition DB_getTask :: "nat \<Rightarrow> Store \<Rightarrow> Task option" where
  "DB_getTask i store = find (\<lambda>t. task_id t = Some i) (tasks store)"

text \<open>\<open>createTask\<close>: the store assigns the primary key.\<close>

definition DB_createTask :: "Task \<Rightarrow> Store \<Rightarrow> Task \<times> Store" where
  "DB_createTask task store =
     (let data = task\<lparr>task_id := Some (next_task_id store)\<rparr>
      in (data, store\<lparr>tasks := tasks store @ [data], next_task_id := Suc (next_task_id store)\<rparr>))"

definition DB_updateTask :: "nat \<Rightarrow> (Task \<Rightarrow> Task) \<Rightarrow> Store \<Rightarrow> error + (Task \<times> Store)" where
  "DB_updateTask i updates store =
     (case find (\<lambda>t. task_id t = Some i) (tasks store) of
        None \<Rightarrow> Inl (Error ''Erro ao atualizar task'')
      | Some t \<Rightarrow>
          Inr (updates t,
               store\<lparr>tasks := map (\<lambda>r. if task_id r = Some i then updates r else r) (tasks store)\<rparr>))"

text \<open>\<open>listTasks\<close>: the tasks of a todo by ascending sequence number, optionally of one status.\<close>

definition DB_listTasks :: "string \<Rightarrow> TaskStatus option \<Rightarrow> Store \<Rightarrow> Task list" where
  "DB_listTasks todoId st store =
     filter (\<lambda>t. case st of None \<Rightarrow> True | Some s \<Rightarrow> status t = s)
       (sort_key sequence_number (filter (\<lambda>t. todo_id t = todoId) (tasks store)))"

text \<open>\<open>getNextTask\<close>: the pending task of the todo with the least greater sequence number.\<close>

definition DB_getNextTask :: "string \<Rightarrow> nat \<Rightarrow> Store \<Rightarrow> Task option" where
  "DB_getNextTask todoId currentSequence store =
     (case sort_key sequence_number
             (filter (\<lambda>t. todo_id t = todoId \<and> status t = pending
                          \<and> currentSequence < sequence_number t) (tasks store)) of
        [] \<Rightarrow> None
      | t # ts \<Rightarrow> Some t)"

section \<open>The context manager (ContextManager)\<close>

text \<open>
  \<open>ContextData\<close>, the argument of \<open>saveContext\<close>; every field but the project is
  optional. \<open>Partial<ContextData>\<close>, the argument of \<open>pushContext\<close>, has the project
  optional as well. A field that is present with the value \<open>undefined\<close> is not
  distinguished from an absent one.
\<close>

record ContextFields =
  d_todo_id :: "string option"
  d_task_id :: "nat option"
  d_file_path :: "string option"
  d_line_number :: "nat option"
  d_cursor_position :: "nat option"
  d_working_directory :: "string option"
  d_open_files :: "string list option"
  d_terminal_output :: "string option"
  d_session_data :: "(string \<times> jsonv) list option"
  d_next_action :: "string option"
  d_notes :: "string option"
  d_stack_depth :: "nat option"
  d_parent_context_id :: "nat option"

record ContextData = ContextFields +
  d_project_id :: string

record PartialContextData = ContextFields +
  p_project_id :: "string option"

text \<open>
  The system: the store and the manager's private cache \<open>contextStack\<close>, a
  \<open>Map<string, ContextStack[]>\<close> from project ids to lists of context objects.
  Of the manager's operations, \<open>saveContext\<close>, \<open>getActiveContext\<close>, \<open>pushContext\<close>,
  \<open>popContext\<close> and \<open>clearCache\<close> are modelled; \<open>updateCurrentContext\<close>,
  \<open>getContextHistory\<close> and \<open>clearInactiveContexts\<close> are not used below.
\<close>

record System =
  db :: Store
  contextStack :: "string \<rightharpoonup> ContextStack list"

definition cached :: "System \<Rightarrow> string \<Rightarrow> ContextStack list" where
  "cached sys projectId = (case contextStack sys projectId of None \<Rightarrow> [] | Some cs \<Rightarrow> cs)"

text \<open>\<open>ContextManager.saveContext\<close>: persist, then append the saved row to the cache.\<close>

definition saveContext :: "nat \<Rightarrow> ContextData \<Rightarrow> System \<Rightarrow> ContextStack \<times> System" where
  "saveContext now data sys =
     (let contextToSave =
            \<lparr>c_id = None,
             c_project_id = d_project_id data,
             c_todo_id = d_todo_id data,
             c_task_id = d_task_id data,
             c_file_path = d_file_path data,
             c_line_number = d_line_number data,
             c_cursor_position = d_cursor_position data,
             c_working_directory = d_working_directory data,
             c_open_files = (case d_open_files data of None \<Rightarrow> [] | Some fs \<Rightarrow> fs),
             c_terminal_output = d_terminal_output data,
             c_session_data = (case d_session_data data of None \<Rightarrow> [] | Some sd \<Rightarrow> sd),
             c_next_action = d_next_action data,
             c_notes = d_notes data,
             c_saved_at = now,
             c_resumed_at = None,
             c_is_active = True,
             c_stack_depth = (case d_stack_depth data of None \<Rightarrow> 0 | Some n \<Rightarrow> n),
             c_parent_context_id = d_parent_context_id data\<rparr>;
          (context, store) = DB_saveContext now contextToSave (db sys);
          projectContexts = cached sys (d_project_id data)
      in (context,
          sys\<lparr>db := store,
              contextStack := (contextStack sys)(d_project_id data \<mapsto> projectContexts @ [context])\<rparr>))"

text \<open>
  The cache update shared by \<open>getActiveContext\<close> and \<open>updateContextCache\<close>: the first
  entry with the same id is replaced, otherwise the context is appended.
\<close>

fun putContext :: "ContextStack \<Rightarrow> ContextStack list \<Rightarrow> ContextStack list" where
  "putContext context [] = [context]"
| "putContext context (c # cs) =
     (if c_id c = c_id context then context # cs else c # putContext context cs)"

definition updateContextCache :: "string \<Rightarrow> ContextStack \<Rightarrow> System \<Rightarrow> System" where
  "updateContextCache projectId context sys =
     sys\<lparr>contextStack := (contextStack sys)(projectId \<mapsto> putContext context (cached sys projectId))\<rparr>"

text \<open>
  \<open>getActiveContext\<close>: the first cached entry whose flag is set, if there is one;
  otherwise the active row of the store, which is then written to the cache.
\<close>

definition getActiveContext :: "string \<Rightarrow> System \<Rightarrow> ContextStack option \<times> System" where
  "getActiveContext projectId sys =
     (case (case contextStack sys projectId of
              None \<Rightarrow> None
            | Some cachedContexts \<Rightarrow>
                if cachedContexts \<noteq> [] then find c_is_active cachedContexts else None) of
        Some activeContext \<Rightarrow> (Some activeContext, sys)
      | None \<Rightarrow>
          (case DB_getActiveContext projectId (db sys) of
             None \<Rightarrow> (None, sys)
           | Some context \<Rightarrow> (Some context, updateContextCache projectId context sys)))"

text \<open>
  \<open>pushContext\<close>: depth and parent are taken from the context that \<open>getActiveContext\<close>
  reports; the fields of \<open>data\<close> that are present override them.
\<close>

definition pushContext ::
  "nat \<Rightarrow> string \<Rightarrow> PartialContextData \<Rightarrow> System \<Rightarrow> ContextStack \<times> System" where
  "pushContext now projectId data sys =
     (let (currentContext, sys1) = getActiveContext projectId sys;
          stackDepth = (case currentContext of None \<Rightarrow> 0 | Some c \<Rightarrow> c_stack_depth c + 1);
          newContextData =
            \<lparr>d_todo_id = d_todo_id data,
             d_task_id = d_task_id data,
             d_file_path = d_file_path data,
             d_line_number = d_line_number data,
             d_cursor_position = d_cursor_position data,
             d_working_directory = d_working_directory data,
             d_open_files = d_open_files data,
             d_terminal_output = d_terminal_output data,
             d_session_data = d_session_data data,
             d_next_action = d_next_action data,
             d_notes = d_notes data,
             d_stack_depth = (case d_stack_depth data of None \<Rightarrow> Some stackDepth | Some n \<Rightarrow> Some n),
             d_parent_context_id =
               (case d_parent_context_id data of
                  None \<Rightarrow> (case currentContext of None \<Rightarrow> None | Some c \<Rightarrow> c_id c)
                | Some i \<Rightarrow> Some i),
             d_project_id = (case p_project_id data of None \<Rightarrow> projectId | Some q \<Rightarrow> q)\<rparr>
      in saveContext now newContextData sys1)"

text \<open>
  \<open>popContext\<close>: \<open>null\<close> when there is no current context or its parent id is falsy
  (absent or 0); otherwise the current row is set inactive, the parent row is fetched and
  set active with \<open>resumed_at\<close>; the parent as fetched is cached and returned. An error of
  the store is rethrown.
\<close>

definition popContext ::
  "nat \<Rightarrow> string \<Rightarrow> System \<Rightarrow> error + (ContextStack option \<times> System)" where
  "popContext now projectId sys =
     (let (currentContext, sys1) = getActiveContext projectId sys
      in case currentContext of
           None \<Rightarrow> Inr (None, sys1)
         | Some cur \<Rightarrow>
            (case c_parent_context_id cur of
               None \<Rightarrow> Inr (None, sys1)
             | Some parentRef \<Rightarrow>
                if parentRef = 0 then Inr (None, sys1)
                else
                 (case c_id cur of
                    None \<Rightarrow> Inl (Error ''Erro ao atualizar contexto'')
                  | Some curId \<Rightarrow>
                     (case DB_updateContext curId (\<lambda>c. c\<lparr>c_is_active := False\<rparr>) (db sys1) of
                        Inl e \<Rightarrow> Inl e
                      | Inr (u, store1) \<Rightarrow>
                         (case DB_getContext parentRef store1 of
                            None \<Rightarrow> Inr (None, sys1\<lparr>db := store1\<rparr>)
                          | Some parentContext \<Rightarrow>
                             (case c_id parentContext of
                                None \<Rightarrow> Inl (Error ''Erro ao atualizar contexto'')
                              | Some parentId \<Rightarrow>
                                 (case DB_updateContext parentId
                                         (\<lambda>c. c\<lparr>c_is_active := True, c_resumed_at := Some now\<rparr>)
                                         store1 of
                                    Inl e \<Rightarrow> Inl e
                                  | Inr (u2, store2) \<Rightarrow>
                                      Inr (Some parentContext,
                                           updateContextCache projectId parentContext
                                             (sys1\<lparr>db := store2\<rparr>)))))))))"

text \<open>\<open>clearCache\<close>: one project's entry, or the whole map.\<close>

definition clearCache :: "string option \<Rightarrow> System \<Rightarrow> System" where
  "clearCache projectId sys =
     (case projectId of
        Some p \<Rightarrow> sys\<lparr>contextStack := (contextStack sys)(p := None)\<rparr>
      | None \<Rightarrow> sys\<lparr>contextStack := Map.empty\<rparr>)"

text \<open>The empty argument object \<open>{}\<close>, and a fresh system: no rows, an empty cache.\<close>

definition emptyData :: PartialContextData where
  "emptyData =
     \<lparr>d_todo_id = None, d_task_id = None, d_file_path = None, d_line_number = None,
      d_cursor_position = None, d_working_directory = None, d_open_files = None,
      d_terminal_output = None, d_session_data = None, d_next_action = None, d_notes = None,
      d_stack_depth = None, d_parent_context_id = None, p_project_id = None\<rparr>"

text \<open>The argument objects \<open>{notes: n}\<close> and \<open>{project_id: p, notes: n}\<close>.\<close>

definition notesOnly :: "string \<Rightarrow> PartialContextData" where
  "notesOnly n = emptyData\<lparr>d_notes := Some n\<rparr>"

definition projectNotes :: "string \<Rightarrow> string \<Rightarrow> ContextData" where
  "projectNotes p n =
     \<lparr>d_todo_id = None, d_task_id = None, d_file_path = None, d_line_number = None,
      d_cursor_position = None, d_working_directory = None, d_open_files = None,
      d_terminal_output = None, d_session_data = None, d_next_action = None, d_notes = Some n,
      d_stack_depth = None, d_parent_context_id = None, d_project_id = p\<rparr>"

definition emptyStore :: Store where
  "emptyStore = \<lparr>todos = [], tasks = [], context_stack = [], next_task_id = 1, next_context_id = 1\<rparr>"

definition freshSystem :: System where
  "freshSystem = \<lparr>db = emptyStore, contextStack = Map.empty\<rparr>"

text \<open>The rows of a project that the store holds as active.\<close>

definition activeRows :: "string \<Rightarrow> Store \<Rightarrow> ContextStack list" where
  "activeRows projectId store =
     filter (\<lambda>c. c_project_id c = projectId \<and> c_is_active c) (context_stack store)"

section \<open>The command processor (CommandProcessor)\<close>

text \<open>The consensus object: one optional text per agent type.\<close>

type_synonym AgentConsensus = "AgentType \<Rightarrow> string option"

text \<open>JavaScript truthiness of an optional string: present and not empty.\<close>

definition truthy :: "string option \<Rightarrow> bool" where
  "truthy v = (case v of None \<Rightarrow> False | Some t \<Rightarrow> t \<noteq> [])"

text \<open>
  \<open>generateConsensus\<close>: one text per agent tag of the responses, a later response with the
  same tag overwriting an earlier one. The replacement that strips a leading emoji and agent
  name from the text is the parameter \<open>clean\<close>.
\<close>

definition generateConsensus :: "(string \<Rightarrow> string) \<Rightarrow> AgentResponse list \<Rightarrow> AgentConsensus" where
  "generateConsensus clean rs =
     fold (\<lambda>r consensus. consensus(agent r \<mapsto> clean (response r))) rs (\<lambda>a. None)"

text \<open>
  \<open>generateTasksFromAnalysis\<close>: the three literal task objects of the source, the second
  and third guarded by the developer and QA texts of the consensus. The results have no id
  yet. Accented letters are written as their UTF-8 bytes.
\<close>

definition planningTask :: "Todo \<Rightarrow> Task" where
  "planningTask todo =
     \<lparr>task_id = None,
      todo_id = td_id todo,
      sequence_number = 1,
      title = ''An'' @ [CHR 0xC3, CHR 0xA1] @ ''lise detalhada e planejamento'',
      description = Some (''Revisar an'' @ [CHR 0xC3, CHR 0xA1]
                          @ ''lise multi-agente e definir abordagem t''
                          @ [CHR 0xC3, CHR 0xA9] @ ''cnica''),
      owner_agent = architect,
      status = pending,
      code_snippet = None,
      code_language = ''markdown'',
      test_scenarios = [],
      started_at = None,
      completed_at = None,
      execution_time_seconds = None,
      error_count = 0,
      last_error = None,
      corrections_applied = [],
      requires_confirmation = True,
      auto_confirmed = False,
      confirmed_by = None,
      confirmed_at = None,
      dependencies = [],
      completion_criteria = [''An'' @ [CHR 0xC3, CHR 0xA1] @ ''lise revisada'',
                             ''Abordagem definida'']\<rparr>"

definition implementationTask :: "Todo \<Rightarrow> AgentConsensus \<Rightarrow> Task" where
  "implementationTask todo consensus =
     \<lparr>task_id = None,
      todo_id = td_id todo,
      sequence_number = 2,
      title = ''Implementa'' @ [CHR 0xC3, CHR 0xA7, CHR 0xC3, CHR 0xA3] @ ''o da solu''
              @ [CHR 0xC3, CHR 0xA7, CHR 0xC3, CHR 0xA3] @ ''o'',
      description = consensus developer,
      owner_agent = developer,
      status = pending,
      code_snippet = None,
      code_language = ''csharp'',
      test_scenarios = [],
      started_at = None,
      completed_at = None,
      execution_time_seconds = None,
      error_count = 0,
      last_error = None,
      corrections_applied = [],
      requires_confirmation = True,
      auto_confirmed = False,
      confirmed_by = None,
      confirmed_at = None,
      dependencies = [1],
      completion_criteria = [''C'' @ [CHR 0xC3, CHR 0xB3] @ ''digo implementado'',
                             ''Compila'' @ [CHR 0xC3, CHR 0xA7, CHR 0xC3, CHR 0xA3]
                             @ ''o sem erros'']\<rparr>"

definition testTask :: "Todo \<Rightarrow> AgentConsensus \<Rightarrow> Task" where
  "testTask todo consensus =
     \<lparr>task_id = None,
      todo_id = td_id todo,
      sequence_number = 3,
      title = ''Testes e valida'' @ [CHR 0xC3, CHR 0xA7, CHR 0xC3, CHR 0xA3] @ ''o'',
      description = consensus qa,
      owner_agent = qa,
      status = pending,
      code_snippet = None,
      code_language = ''csharp'',
      test_scenarios = [],
      started_at = None,
      completed_at = None,
      execution_time_seconds = None,
      error_count = 0,
      last_error = None,
      corrections_applied = [],
      requires_confirmation = True,
      auto_confirmed = False,
      confirmed_by = None,
      confirmed_at = None,
      dependencies = [2],
      completion_criteria = [''Testes executados'',
                             ''Valida'' @ [CHR 0xC3, CHR 0xA7, CHR 0xC3, CHR 0xA3]
                             @ ''o conclu'' @ [CHR 0xC3, CHR 0xAD] @ ''da'']\<rparr>"

definition generateTasksFromAnalysis :: "Todo \<Rightarrow> AgentConsensus \<Rightarrow> Task list" where
  "generateTasksFromAnalysis todo consensus =
     [planningTask todo]
     @ (if truthy (consensus developer) then [implementationTask todo consensus] else [])
     @ (if truthy (consensus qa) then [testTask todo consensus] else [])"

text \<open>
  \<open>checkTaskDependencies\<close>: every entry of \<open>dependencies\<close> is looked up with
  \<open>getTask\<close>, that is by primary key; it is kept when no such row exists or the row is not
  completed.
\<close>

definition checkTaskDependencies :: "Task \<Rightarrow> Store \<Rightarrow> nat list" where
  "checkTaskDependencies task store =
     filter (\<lambda>depId. case DB_getTask depId store of
                        None \<Rightarrow> True
                      | Some depTask \<Rightarrow> status depTask \<noteq> completed)
       (dependencies task)"

text \<open>
  \<open>executeTask\<close>: the task row is marked \<open>in_progress\<close>, then the owner agent's analysis
  is stored as the code snippet. The answer of
  \<open>orchestrator.getAgentSpecificAnalysis\<close>, which never throws, is an input. The second
  update addresses the row that the first one has just found.
\<close>

definition executeTask :: "nat \<Rightarrow> Task \<Rightarrow> AgentResponse option \<Rightarrow> Store \<Rightarrow> error + Store" where
  "executeTask now task agentAnalysis store =
     (case task_id task of
        None \<Rightarrow> Inl (Error ''Erro ao atualizar task'')
      | Some i \<Rightarrow>
         (case DB_updateTask i (\<lambda>t. t\<lparr>status := in_progress, started_at := Some now\<rparr>) store of
            Inl e \<Rightarrow> Inl e
          | Inr (u, store1) \<Rightarrow>
             (let code = (case agentAnalysis of
                            None \<Rightarrow> ''C'' @ [CHR 0xC3, CHR 0xB3] @ ''digo a ser implementado''
                          | Some a \<Rightarrow> if response a = [] then ''C'' @ [CHR 0xC3, CHR 0xB3]
                                         @ ''digo a ser implementado'' else response a)
              in case DB_updateTask i
                        (\<lambda>t. t\<lparr>code_snippet := Some code, execution_time_seconds := Some 1\<rparr>)
                        store1 of
                   Inl e \<Rightarrow> Inl e
                 | Inr (u2, store2) \<Rightarrow> Inr store2)))"

record CommandContext =
  projectId :: string
  userId :: "string option"

text \<open>
  The results of \<open>handleExecute\<close>, one constructor per \<open>return\<close> of the source:
  the four early failure returns, the success return with the task number and the progress
  written to the todo, and the failure return of the \<open>catch\<close> block. \<open>PendingDependencies\<close>
  carries the list that the source joins into its error text.
\<close>

datatype ExecuteResult =
  MissingTaskNumber
| NoActiveTodo
| TaskNotFound nat
| PendingDependencies nat "nat list"
| TaskExecuted nat int
| ExecuteFailed error

fun execute_success :: "ExecuteResult \<Rightarrow> bool" where
  "execute_success (TaskExecuted n p) = True"
| "execute_success r = False"

text \<open>
  \<open>handleExecute\<close>. The progress is computed from \<open>tasks\<close>, the list read before the
  task was executed.
\<close>

definition handleExecute ::
  "nat \<Rightarrow> nat option \<Rightarrow> bool \<Rightarrow> CommandContext \<Rightarrow> AgentResponse option \<Rightarrow> Store
     \<Rightarrow> ExecuteResult \<times> Store" where
  "handleExecute now taskNumberArg force context agentAnalysis store =
     (case taskNumberArg of
        None \<Rightarrow> (MissingTaskNumber, store)
      | Some taskNumber \<Rightarrow>
         if taskNumber = 0 then (MissingTaskNumber, store)
         else
          (case DB_getActiveTodo (projectId context) store of
             None \<Rightarrow> (NoActiveTodo, store)
           | Some activeTodo \<Rightarrow>
              (let tasks = DB_listTasks (td_id activeTodo) None store
               in case find (\<lambda>t. sequence_number t = taskNumber) tasks of
                    None \<Rightarrow> (TaskNotFound taskNumber, store)
                  | Some targetTask \<Rightarrow>
                     (let pendingDependencies =
                            (if \<not> force \<and> dependencies targetTask \<noteq> []
                             then checkTaskDependencies targetTask store else [])
                      in if pendingDependencies \<noteq> []
                         then (PendingDependencies taskNumber pendingDependencies, store)
                         else
                          (case executeTask now targetTask agentAnalysis store of
                             Inl e \<Rightarrow> (ExecuteFailed e, store)
                           | Inr store1 \<Rightarrow>
                              (let completedTasks = length (filter (\<lambda>t. status t = completed) tasks);
                                   progressPercentage =
                                     Math_round (real completedTasks / real (length tasks) * 100)
                               in case DB_updateTodo (td_id activeTodo)
                                         (\<lambda>t. t\<lparr>td_progress_percentage := progressPercentage,
                                                 td_current_task_index := taskNumber\<rparr>) store1 of
                                    Inl e \<Rightarrow> (ExecuteFailed e, store1)
                                  | Inr (u, store2) \<Rightarrow>
                                      (TaskExecuted taskNumber progressPercentage, store2)))))))"

text \<open>Decimal digits of a number, as template literals print it.\<close>

fun showNat :: "nat \<Rightarrow> string" where
  "showNat n =
     (if n < 10 then [char_of (48 + n)] else showNat (n div 10) @ [char_of (48 + n mod 10)])"

text \<open>The results of \<open>handleConfirm\<close>, one constructor per \<open>return\<close> of the source.\<close>

datatype ConfirmResult =
  NoActiveTask
| ConfirmTaskNotFound nat
| TaskNotInProgress TaskStatus
| TaskConfirmed Task "Task option" string
| ConfirmFailed error

text \<open>
  \<open>handleConfirm\<close>. The task of the active context is completed; the todo is written
  only in the branch without a next pending task, when every task of the todo is completed.
\<close>

definition handleConfirm ::
  "nat \<Rightarrow> string option \<Rightarrow> CommandContext \<Rightarrow> System \<Rightarrow> ConfirmResult \<times> System" where
  "handleConfirm now notes context sys =
     (let (activeContext, sys1) = getActiveContext (projectId context) sys
      in case (case activeContext of None \<Rightarrow> None | Some c \<Rightarrow> c_task_id c) of
           None \<Rightarrow> (NoActiveTask, sys1)
         | Some taskRef \<Rightarrow>
            if taskRef = 0 then (NoActiveTask, sys1)
            else
             (case DB_getTask taskRef (db sys1) of
                None \<Rightarrow> (ConfirmTaskNotFound taskRef, sys1)
              | Some task \<Rightarrow>
                 if status task \<noteq> in_progress then (TaskNotInProgress (status task), sys1)
                 else
                  (case DB_updateTask taskRef
                          (\<lambda>t. t\<lparr>status := completed, completed_at := Some now,
                                  confirmed_by := userId context, confirmed_at := Some now\<rparr>)
                          (db sys1) of
                     Inl e \<Rightarrow> (ConfirmFailed e, sys1)
                   | Inr (u, store1) \<Rightarrow>
                      (let todo = DB_getTodo (todo_id task) store1;
                           nextTask = DB_getNextTask (todo_id task) (sequence_number task) store1;
                           allDone =
                             (case todo of
                                None \<Rightarrow> False
                              | Some t \<Rightarrow>
                                 (let allTasks = DB_listTasks (td_id t) None store1;
                                      completedTasks = filter (\<lambda>t. status t = completed) allTasks
                                  in length completedTasks = length allTasks));
                           written =
                             (case (nextTask, todo) of
                                (None, Some t) \<Rightarrow>
                                  if allDone
                                  then (case DB_updateTodo (td_id t)
                                               (\<lambda>r. r\<lparr>td_status := todo_completed,
                                                       td_completed_at := Some now,
                                                       td_progress_percentage := 100\<rparr>) store1 of
                                          Inl e \<Rightarrow> Inl e
                                        | Inr (u2, store2) \<Rightarrow> Inr store2)
                                  else Inr store1
                              | _ \<Rightarrow> Inr store1)
                       in case written of
                            Inl e \<Rightarrow> (ConfirmFailed e, sys1\<lparr>db := store1\<rparr>)
                          | Inr store2 \<Rightarrow>
                             (let nextAction =
                                    (case nextTask of
                                       Some n \<Rightarrow>
                                         ''Pr'' @ [CHR 0xC3, CHR 0xB3] @ ''xima task: ''
                                         @ showNat (sequence_number n) @ '' - '' @ title n
                                     | None \<Rightarrow>
                                         if todo \<noteq> None \<and> allDone
                                         then ''TODO conclu'' @ [CHR 0xC3, CHR 0xAD]
                                              @ ''do com sucesso! ''
                                              @ [CHR 0xF0, CHR 0x9F, CHR 0x8E, CHR 0x89]
                                         else ''TODO conclu'' @ [CHR 0xC3, CHR 0xAD] @ ''do!'');
                                  (saved, sys2) =
                                    saveContext now
                                      \<lparr>d_todo_id = Some (todo_id task),
                                       d_task_id = (case nextTask of None \<Rightarrow> None
                                                    | Some n \<Rightarrow> task_id n),
                                       d_file_path = None,
                                       d_line_number = None,
                                       d_cursor_position = None,
                                       d_working_directory = None,
                                       d_open_files = None,
                                       d_terminal_output = None,
                                       d_session_data =
                                         Some [(''confirmedAt'', Date now),
                                               (''confirmedBy'',
                                                case userId context of None \<Rightarrow> Undefined
                                                | Some u \<Rightarrow> Str u)],
                                       d_next_action = Some nextAction,
                                       d_notes =
                                         Some (case notes of
                                                 None \<Rightarrow> ''Task confirmada pelo usu''
                                                         @ [CHR 0xC3, CHR 0xA1] @ ''rio''
                                               | Some t \<Rightarrow>
                                                   if t = [] then ''Task confirmada pelo usu''
                                                                 @ [CHR 0xC3, CHR 0xA1] @ ''rio''
                                                   else t),
                                       d_stack_depth = None,
                                       d_parent_context_id = None,
                                       d_project_id = projectId context\<rparr>
                                      (sys1\<lparr>db := store2\<rparr>)
                              in (TaskConfirmed task nextTask nextAction, sys2))))))"

text \<open>Progress in the words of the specification: \<open>round(100 \<times> completed / total)\<close>.\<close>

definition completedSteps :: "string \<Rightarrow> Store \<Rightarrow> nat" where
  "completedSteps todoId store =
     length (filter (\<lambda>t. todo_id t = todoId \<and> status t = completed) (tasks store))"

definition totalSteps :: "string \<Rightarrow> Store \<Rightarrow> nat" where
  "totalSteps todoId store = length (filter (\<lambda>t. todo_id t = todoId) (tasks store))"

definition progress_spec :: "string \<Rightarrow> Store \<Rightarrow> int" where
  "progress_spec todoId store =
     round (100 * real (completedSteps todoId store) / real (totalSteps todoId store))"

section \<open>Example states\<close>

text \<open>
  \<open>createTodo\<close> inserts the row it is given; the loop of \<open>handleCreate\<close> inserts the
  generated tasks one by one, so that the store numbers them in order.
\<close>

definition DB_createTodo :: "Todo \<Rightarrow> Store \<Rightarrow> Todo \<times> Store" where
  "DB_createTodo todo store = (todo, store\<lparr>todos := todos store @ [todo]\<rparr>)"

definition createTasks :: "Task list \<Rightarrow> Store \<Rightarrow> Store" where
  "createTasks ts store = fold (\<lambda>task st. snd (DB_createTask task st)) ts store"

definition newTodo :: "string \<Rightarrow> string \<Rightarrow> TodoStatus \<Rightarrow> nat \<Rightarrow> Todo" where
  "newTodo i p st created =
     \<lparr>td_id = i, td_project_id = p, td_status = st, td_progress_percentage = 0,
      td_current_task_index = 0, td_created_at = created, td_completed_at = None\<rparr>"

text \<open>A consensus with a text of every agent, and one with the QA text only.\<close>

definition fullConsensus :: AgentConsensus where
  "fullConsensus a = Some (agentName a)"

definition qaOnlyConsensus :: AgentConsensus where
  "qaOnlyConsensus a = (if a = qa then Some ''validar'' else None)"




text \<open>
  Two todos of one project with their generated tasks: the first todo with all three
  tasks completed, the second one in progress with all three tasks pending. The store has
  numbered the task rows 1 to 6.
\<close>

definition twoTodoStore :: Store where
  "twoTodoStore =
     (let todo1 = newTodo ''TODO-1'' ''p'' todo_in_progress 1;
          todo2 = newTodo ''TODO-2'' ''p'' todo_in_progress 2;
          s1 = createTasks (generateTasksFromAnalysis todo1 fullConsensus)
                 (snd (DB_createTodo todo1 emptyStore));
          s2 = createTasks (generateTasksFromAnalysis todo2 fullConsensus)
                 (snd (DB_createTodo todo2 s1))
      in s2\<lparr>tasks := map (\<lambda>t. if todo_id t = ''TODO-1''
                                then t\<lparr>status := completed\<rparr> else t) (tasks s2),
             todos := map (\<lambda>t. if td_id t = ''TODO-1''
                                then t\<lparr>td_status := todo_completed,
                                       td_progress_percentage := 100\<rparr> else t) (todos s2)\<rparr>)"

text \<open>
  One todo in progress with its three generated tasks pending, and the context that
  \<open>handleCreate\<close> saves: it points to the first task.
\<close>

definition oneTodoSystem :: System where
  "oneTodoSystem =
     (let todo1 = newTodo ''TODO-1'' ''p'' todo_in_progress 1;
          s1 = createTasks (generateTasksFromAnalysis todo1 fullConsensus)
                 (snd (DB_createTodo todo1 emptyStore))
      in snd (saveContext 1
                ((projectNotes ''p'' ''created'')\<lparr>d_todo_id := Some ''TODO-1'', d_task_id := Some 1\<rparr>)
                \<lparr>db = s1, contextStack = Map.empty\<rparr>))"

definition user :: CommandContext where
  "user = \<lparr>projectId = ''p'', userId = Some ''u''\<rparr>"

section \<open>Properties of the confidence score\<close>

lemma Math_round_eq_round: "Math_round x = round x"
  by (simp add: Math_round_def round_def)

lemma Math_round_mono: "x \<le> y \<Longrightarrow> Math_round x \<le> Math_round y"
  by (simp add: Math_round_def floor_mono)

lemma Math_round_of_int: "Math_round (of_int n) = n"
  unfolding Math_round_def by (rule floor_unique) simp_all

lemma clamp_spec_max_min: "clamp_spec (10 / 100) 1 x = max (1 / 10) (min 1 x)"
  by (simp add: clamp_spec_def max_def min_def)

lemma clamp_lower: "(1 / 10 :: real) \<le> max (1 / 10) (min 1 y)"
  by (rule max.cobounded1)

lemma clamp_upper: "max (1 / 10) (min 1 y) \<le> (1::real)"
  by (simp add: max_def min_def)

lemma Math_round_percent_bounds:
  assumes "(1 / 10 :: real) \<le> x" and "x \<le> 1"
  shows "10 \<le> Math_round (x * 100)" and "Math_round (x * 100) \<le> 100"
proof -
  from assms(1) have "of_int 10 \<le> x * 100 + 1 / 2" by simp
  then show "10 \<le> Math_round (x * 100)"
    unfolding Math_round_def le_floor_iff .
  from assms(2) have "x * 100 + 1 / 2 < of_int 100 + 1" by simp
  then show "Math_round (x * 100) \<le> 100"
    unfolding Math_round_def floor_le_iff .
qed

lemma calculateConfidence_unfold:
  "calculateConfidence f =
     of_int (Math_round (max (1 / 10) (min 1 ((familiarity f + dataQuality f) / 2 / 5
        - (complexity f - 1) * (1 / 10) - (riskLevel f - 1) * (15 / 100))) * 100)) / 100"
  by (simp only: calculateConfidence_def Let_def)

lemma calculateConfidence_lower: "1 / 10 \<le> calculateConfidence f"
proof -
  have "(10::int) \<le> Math_round (max (1 / 10) (min 1 ((familiarity f + dataQuality f) / 2 / 5
        - (complexity f - 1) * (1 / 10) - (riskLevel f - 1) * (15 / 100))) * 100)"
    by (rule Math_round_percent_bounds(1) [OF clamp_lower clamp_upper])
  then have "(10::real) \<le> of_int (Math_round (max (1 / 10) (min 1 ((familiarity f + dataQuality f) / 2 / 5
        - (complexity f - 1) * (1 / 10) - (riskLevel f - 1) * (15 / 100))) * 100))"
    by linarith
  then show ?thesis unfolding calculateConfidence_unfold by linarith
qed

lemma calculateConfidence_upper: "calculateConfidence f \<le> 1"
proof -
  have "Math_round (max (1 / 10) (min 1 ((familiarity f + dataQuality f) / 2 / 5
        - (complexity f - 1) * (1 / 10) - (riskLevel f - 1) * (15 / 100))) * 100) \<le> (100::int)"
    by (rule Math_round_percent_bounds(2) [OF clamp_lower clamp_upper])
  then have "of_int (Math_round (max (1 / 10) (min 1 ((familiarity f + dataQuality f) / 2 / 5
        - (complexity f - 1) * (1 / 10) - (riskLevel f - 1) * (15 / 100))) * 100)) \<le> (100::real)"
    by linarith
  then show ?thesis unfolding calculateConfidence_unfold by linarith
qed

lemma calculateConfidence_refines:
  "calculateConfidence (mk_factors c f r d) = confidenceScorer_spec c f r d"
proof -
  have raw: "(familiarity (mk_factors c f r d) + dataQuality (mk_factors c f r d)) / 2 / 5
        - (complexity (mk_factors c f r d) - 1) * (1 / 10)
        - (riskLevel (mk_factors c f r d) - 1) * (15 / 100) = raw_spec c f r d"
    by (simp add: mk_factors_def raw_spec_def)
  show ?thesis
    unfolding calculateConfidence_unfold raw confidenceScorer_spec_def round2_spec_def
      clamp_spec_max_min Math_round_eq_round
    by (simp only: mult.commute)
qed

text \<open>On the integer grid the clamped raw score is already a two-decimal number.\<close>

lemma raw_spec_grid: "raw_spec c f r d * 100 = of_int (10 * (f + d) - 10 * (c - 1) - 15 * (r - 1))"
  by (simp add: raw_spec_def field_simps)

lemma calculateConfidence_exact:
  "calculateConfidence (mk_factors c f r d) = max (1 / 10) (min 1 (raw_spec c f r d))"
proof -
  define n where "n = 10 * (f + d) - 10 * (c - 1) - 15 * (r - 1)"
  define y where "y = max (1 / 10) (min 1 (raw_spec c f r d))"
  have raw: "raw_spec c f r d = of_int n / 100"
    using raw_spec_grid [of c f r d] by (simp add: n_def)
  have y100: "y * 100 = of_int (max 10 (min 100 n))"
    by (simp add: y_def raw max_def min_def)
  have "Math_round (y * 100) = max 10 (min 100 n)"
    unfolding y100 by (rule Math_round_of_int)
  then have "of_int (Math_round (y * 100)) / 100 = y"
    using y100 by simp
  moreover have "calculateConfidence (mk_factors c f r d) = of_int (Math_round (y * 100)) / 100"
    unfolding y_def
    by (simp add: calculateConfidence_unfold mk_factors_def raw_spec_def)
  ultimately show ?thesis by (simp add: y_def)
qed

text \<open>
  Claim C7. On every integer factor tuple of [1,5]^4 the function returns exactly the value
  of the specified algorithm (base, penalties, raw score, clamp to [0.10, 1.00], rounding to
  two decimals), and the result lies in [0.10, 1.00]. The function is total: it is a plain
  HOL function with no error result, as the source has no throwing path.
\<close>

theorem C7_calculateConfidence_spec:
  assumes "in_range c" and "in_range f" and "in_range r" and "in_range d"
  shows "calculateConfidence (mk_factors c f r d) = confidenceScorer_spec c f r d
       \<and> 1 / 10 \<le> calculateConfidence (mk_factors c f r d)
       \<and> calculateConfidence (mk_factors c f r d) \<le> 1"
  using calculateConfidence_refines [of c f r d]
    calculateConfidence_lower [of "mk_factors c f r d"]
    calculateConfidence_upper [of "mk_factors c f r d"]
  by blast

theorem C7_calculateConfidence_spec_witness:
  "in_range 3 \<and> in_range 4 \<and> in_range 2 \<and> in_range 2
   \<and> calculateConfidence (mk_factors 3 4 2 2) = confidenceScorer_spec 3 4 2 2
   \<and> calculateConfidence (mk_factors 3 4 2 2) = 1 / 4"
proof -
  have r: "in_range 3" "in_range 4" "in_range 2" by (simp_all add: in_range_def)
  have v: "calculateConfidence (mk_factors 3 4 2 2) = 1 / 4"
    by (simp add: calculateConfidence_def mk_factors_def Math_round_def)
  show ?thesis
    using C7_calculateConfidence_spec [OF r(1) r(2) r(3) r(3)] r v by simp
qed

lemma calculateConfidence_mono_raw:
  assumes "(familiarity f + dataQuality f) / 2 / 5
        - (complexity f - 1) * (1 / 10) - (riskLevel f - 1) * (15 / 100)
      \<le> (familiarity g + dataQuality g) / 2 / 5
        - (complexity g - 1) * (1 / 10) - (riskLevel g - 1) * (15 / 100)"
  shows "calculateConfidence f \<le> calculateConfidence g"
proof -
  let ?rf = "(familiarity f + dataQuality f) / 2 / 5
        - (complexity f - 1) * (1 / 10) - (riskLevel f - 1) * (15 / 100)"
  let ?rg = "(familiarity g + dataQuality g) / 2 / 5
        - (complexity g - 1) * (1 / 10) - (riskLevel g - 1) * (15 / 100)"
  from assms have "max (1 / 10) (min 1 ?rf) \<le> max (1 / 10) (min 1 ?rg)"
    by (intro max.mono min.mono order_refl)
  then have "max (1 / 10) (min 1 ?rf) * 100 \<le> max (1 / 10) (min 1 ?rg) * 100"
    by simp
  then have "Math_round (max (1 / 10) (min 1 ?rf) * 100)
      \<le> Math_round (max (1 / 10) (min 1 ?rg) * 100)"
    by (rule Math_round_mono)
  then have "(of_int (Math_round (max (1 / 10) (min 1 ?rf) * 100)) :: real)
      \<le> of_int (Math_round (max (1 / 10) (min 1 ?rg) * 100))"
    by simp
  then show ?thesis
    unfolding calculateConfidence_unfold by (simp add: divide_right_mono)
qed

lemma mono_complexity:
  "x \<le> x' \<Longrightarrow> calculateConfidence (mk_factors x' f r d) \<le> calculateConfidence (mk_factors x f r d)"
  by (rule calculateConfidence_mono_raw) (simp add: mk_factors_def)

lemma mono_riskLevel:
  "x \<le> x' \<Longrightarrow> calculateConfidence (mk_factors c f x' d) \<le> calculateConfidence (mk_factors c f x d)"
  by (rule calculateConfidence_mono_raw) (simp add: mk_factors_def)

lemma mono_familiarity:
  "x \<le> x' \<Longrightarrow> calculateConfidence (mk_factors c x r d) \<le> calculateConfidence (mk_factors c x' r d)"
  by (rule calculateConfidence_mono_raw) (simp add: mk_factors_def)

lemma mono_dataQuality:
  "x \<le> x' \<Longrightarrow> calculateConfidence (mk_factors c f r x) \<le> calculateConfidence (mk_factors c f r x')"
  by (rule calculateConfidence_mono_raw) (simp add: mk_factors_def)

text \<open>
  Claim C8. With the other three factors fixed, the score (after clamping and rounding) does
  not increase when complexity or riskLevel grows and does not decrease when familiarity or
  dataQuality grows.
\<close>

theorem C8_calculateConfidence_monotone:
  assumes "in_range c" and "in_range f" and "in_range r" and "in_range d"
    and "in_range x" and "in_range x'" and "x \<le> x'"
  shows "calculateConfidence (mk_factors x' f r d) \<le> calculateConfidence (mk_factors x f r d)
       \<and> calculateConfidence (mk_factors c f x' d) \<le> calculateConfidence (mk_factors c f x d)
       \<and> calculateConfidence (mk_factors c x r d) \<le> calculateConfidence (mk_factors c x' r d)
       \<and> calculateConfidence (mk_factors c f r x) \<le> calculateConfidence (mk_factors c f r x')"
  using assms(7) mono_complexity mono_riskLevel mono_familiarity mono_dataQuality by blast

theorem C8_calculateConfidence_monotone_witness:
  "in_range 2 \<and> in_range 4 \<and> (2::int) \<le> 4
   \<and> calculateConfidence (mk_factors 4 2 2 2) \<le> calculateConfidence (mk_factors 2 2 2 2)
   \<and> calculateConfidence (mk_factors 2 2 4 2) \<le> calculateConfidence (mk_factors 2 2 2 2)
   \<and> calculateConfidence (mk_factors 2 2 2 2) \<le> calculateConfidence (mk_factors 2 4 2 2)
   \<and> calculateConfidence (mk_factors 2 2 2 2) \<le> calculateConfidence (mk_factors 2 2 2 4)
   \<and> calculateConfidence (mk_factors 2 2 2 2) = 3 / 20
   \<and> calculateConfidence (mk_factors 2 4 2 2) = 7 / 20"
proof -
  have r: "in_range 2" "in_range 4" "(2::int) \<le> 4" by (simp_all add: in_range_def)
  have v: "calculateConfidence (mk_factors 2 2 2 2) = 3 / 20"
    "calculateConfidence (mk_factors 2 4 2 2) = 7 / 20"
    by (simp_all add: calculateConfidence_def mk_factors_def Math_round_def)
  show ?thesis
    using C8_calculateConfidence_monotone [OF r(1) r(1) r(1) r(1) r(1) r(2) r(3)] r v
    by blast
qed

section \<open>Properties of the orchestrator\<close>

lemma analyzeOne_throw:
  "a ctx = Inl e \<Longrightarrow> analyzeOne ctx (t, a) = errorResponse t"
  by (simp add: analyzeOne_def)

lemma analyzeOne_ok:
  "a ctx = Inr r \<Longrightarrow> analyzeOne ctx (t, a) = r"
  by (simp add: analyzeOne_def)

lemma errorResponse_degraded:
  "confidence (errorResponse t) = 1 / 10"
  "suggestions (errorResponse t) = Some [''Revisar manualmente'']"
  "agent (errorResponse t) = t"
  by (simp_all add: errorResponse_def)

lemma map_of_initializeAgents:
  "map_of (initializeAgents a1 a2 a3 a4 a5 a6) t =
     Some (case t of architect \<Rightarrow> a1 | developer \<Rightarrow> a2 | dba \<Rightarrow> a3
                   | qa \<Rightarrow> a4 | business \<Rightarrow> a5 | po \<Rightarrow> a6)"
  by (cases t) (simp_all add: initializeAgents_def)

lemma specificResponses_registered:
  assumes "\<And>t. map_of agents t = Some (reg t)"
  shows "specificResponses agents ctx ts = map (\<lambda>t. analyzeOne ctx (t, reg t)) ts"
  by (induction ts) (simp_all add: assms)

text \<open>
  Claim C2. The fan-out over the N registered (or N requested) agents returns exactly N
  responses whatever number of \<open>analyze\<close> calls throw; the entry of a throwing agent
  is the degraded response with confidence exactly 0.1 and the manual-review suggestion, the
  entry of any other agent is its own response, and the call itself returns a result.
\<close>

theorem C2_fan_out:
  fixes agents :: "'c Registry"
  assumes "agents = initializeAgents a1 a2 a3 a4 a5 a6"
  shows "(\<exists>res. analyzeWithAllAgents lower agents ctx = Inr res
           \<and> length (responses res) = length agents
           \<and> (\<forall>i < length agents.
                 (\<forall>e. snd (agents ! i) ctx = Inl e \<longrightarrow>
                    responses res ! i = errorResponse (fst (agents ! i))
                  \<and> confidence (responses res ! i) = 1 / 10
                  \<and> suggestions (responses res ! i) = Some [''Revisar manualmente''])
               \<and> (\<forall>r. snd (agents ! i) ctx = Inr r \<longrightarrow> responses res ! i = r)))
       \<and> length (responses (analyzeWithSpecificAgents lower agents ctx agentTypes))
           = length agentTypes
       \<and> (\<forall>i < length agentTypes. \<forall>a. map_of agents (agentTypes ! i) = Some a \<longrightarrow>
              (\<forall>e. a ctx = Inl e \<longrightarrow>
                 responses (analyzeWithSpecificAgents lower agents ctx agentTypes) ! i
                    = errorResponse (agentTypes ! i)
               \<and> confidence (responses (analyzeWithSpecificAgents lower agents ctx agentTypes) ! i)
                    = 1 / 10
               \<and> suggestions (responses (analyzeWithSpecificAgents lower agents ctx agentTypes) ! i)
                    = Some [''Revisar manualmente''])
            \<and> (\<forall>r. a ctx = Inr r \<longrightarrow>
                 responses (analyzeWithSpecificAgents lower agents ctx agentTypes) ! i = r))"
proof -
  have p1: "\<exists>res. analyzeWithAllAgents lower agents ctx = Inr res
           \<and> length (responses res) = length agents
           \<and> (\<forall>i < length agents.
                 (\<forall>e. snd (agents ! i) ctx = Inl e \<longrightarrow>
                    responses res ! i = errorResponse (fst (agents ! i))
                  \<and> confidence (responses res ! i) = 1 / 10
                  \<and> suggestions (responses res ! i) = Some [''Revisar manualmente''])
               \<and> (\<forall>r. snd (agents ! i) ctx = Inr r \<longrightarrow> responses res ! i = r))"
    by (auto simp add: analyzeWithAllAgents_def Let_def analyzeOne_def errorResponse_degraded)
  define reg where "reg = (\<lambda>t. case t of architect \<Rightarrow> a1 | developer \<Rightarrow> a2 | dba \<Rightarrow> a3
                   | qa \<Rightarrow> a4 | business \<Rightarrow> a5 | po \<Rightarrow> a6)"
  have reg: "\<And>t. map_of agents t = Some (reg t)"
    unfolding assms reg_def by (rule map_of_initializeAgents)
  have sp: "specificResponses agents ctx agentTypes
      = map (\<lambda>t. analyzeOne ctx (t, reg t)) agentTypes"
    by (rule specificResponses_registered [OF reg])
  have p2: "length (responses (analyzeWithSpecificAgents lower agents ctx agentTypes))
           = length agentTypes"
    by (simp add: analyzeWithSpecificAgents_def Let_def sp)
  have p3: "\<forall>i < length agentTypes. \<forall>a. map_of agents (agentTypes ! i) = Some a \<longrightarrow>
              (\<forall>e. a ctx = Inl e \<longrightarrow>
                 responses (analyzeWithSpecificAgents lower agents ctx agentTypes) ! i
                    = errorResponse (agentTypes ! i)
               \<and> confidence (responses (analyzeWithSpecificAgents lower agents ctx agentTypes) ! i)
                    = 1 / 10
               \<and> suggestions (responses (analyzeWithSpecificAgents lower agents ctx agentTypes) ! i)
                    = Some [''Revisar manualmente''])
            \<and> (\<forall>r. a ctx = Inr r \<longrightarrow>
                 responses (analyzeWithSpecificAgents lower agents ctx agentTypes) ! i = r)"
    by (auto simp add: analyzeWithSpecificAgents_def Let_def sp reg analyzeOne_def
        errorResponse_degraded)
  from p1 p2 p3 show ?thesis by blast
qed

theorem C2_fan_out_witness:
  "\<exists>res. analyzeWithAllAgents id
            (initializeAgents (\<lambda>u. Inl (Error ''boom''))
               (\<lambda>u. Inr \<lparr>agent = developer, response = ''ok'', confidence = 1 / 2, suggestions = None\<rparr>)
               (\<lambda>u. Inl (Error ''boom'')) (\<lambda>u. Inl (Error ''boom''))
               (\<lambda>u. Inl (Error ''boom'')) (\<lambda>u. Inl (Error ''boom''))) () = Inr res
         \<and> length (responses res) = 6
         \<and> confidence (responses res ! 0) = 1 / 10
         \<and> suggestions (responses res ! 0) = Some [''Revisar manualmente'']
         \<and> responses res ! 1
             = \<lparr>agent = developer, response = ''ok'', confidence = 1 / 2, suggestions = None\<rparr>"
proof -
  let ?bad = "(\<lambda>u. Inl (Error ''boom'')) :: unit Agent"
  let ?ok = "(\<lambda>u. Inr \<lparr>agent = developer, response = ''ok'', confidence = 1 / 2,
                suggestions = None\<rparr>) :: unit Agent"
  let ?agents = "initializeAgents ?bad ?ok ?bad ?bad ?bad ?bad"
  from C2_fan_out [OF refl, of id ?bad ?ok ?bad ?bad ?bad ?bad "()" "[]"]
  obtain res where res: "analyzeWithAllAgents id ?agents () = Inr res"
    and len: "length (responses res) = length ?agents"
    and each: "\<forall>i < length ?agents.
                 (\<forall>e. snd (?agents ! i) () = Inl e \<longrightarrow>
                    responses res ! i = errorResponse (fst (?agents ! i))
                  \<and> confidence (responses res ! i) = 1 / 10
                  \<and> suggestions (responses res ! i) = Some [''Revisar manualmente''])
               \<and> (\<forall>r. snd (?agents ! i) () = Inr r \<longrightarrow> responses res ! i = r)"
    by blast
  have l6: "length ?agents = 6" by (simp add: initializeAgents_def)
  have t0: "snd (?agents ! 0) () = Inl (Error ''boom'')" by (simp add: initializeAgents_def)
  have t1: "snd (?agents ! 1) ()
      = Inr \<lparr>agent = developer, response = ''ok'', confidence = 1 / 2, suggestions = None\<rparr>"
    by (simp add: initializeAgents_def)
  from each l6 t0 have "confidence (responses res ! 0) = 1 / 10
      \<and> suggestions (responses res ! 0) = Some [''Revisar manualmente'']"
    by (metis zero_less_numeral)
  moreover from each l6 t1 have "responses res ! 1
      = \<lparr>agent = developer, response = ''ok'', confidence = 1 / 2, suggestions = None\<rparr>"
    by (metis one_less_numeral_iff semiring_norm(76))
  ultimately show ?thesis using res len l6 by simp
qed

lemma Set_add_all_set: "set (Set_add_all seen xs) = set seen \<union> set xs"
  by (induction xs arbitrary: seen) auto

lemma Set_add_all_distinct: "distinct seen \<Longrightarrow> distinct (Set_add_all seen xs)"
  by (induction xs arbitrary: seen) auto

lemma Array_from_Set_set: "set (Array_from_Set xs) = set xs"
  by (simp add: Array_from_Set_def Set_add_all_set)

lemma Array_from_Set_distinct: "distinct (Array_from_Set xs)"
  by (simp add: Array_from_Set_def Set_add_all_distinct)

lemma insort_key_skip:
  "\<forall>y \<in> set as. f y < f x \<Longrightarrow> insort_key f x (as @ bs) = as @ insort_key f x bs"
  by (induction as) auto

lemma insort_key_front:
  "\<forall>y \<in> set bs. f x \<le> f y \<Longrightarrow> insort_key f x bs = x # bs"
  by (cases bs) auto

lemma sort_key_two_valued:
  fixes f :: "'a \<Rightarrow> int"
  assumes "\<And>x. f x = a \<or> f x = b" and "a < b"
  shows "sort_key f xs = filter (\<lambda>x. f x = a) xs @ filter (\<lambda>x. f x = b) xs"
proof (induction xs)
  case Nil
  then show ?case by simp
next
  case (Cons x xs)
  let ?as = "filter (\<lambda>x. f x = a) xs" and ?bs = "filter (\<lambda>x. f x = b) xs"
  have step: "sort_key f (x # xs) = insort_key f x (?as @ ?bs)"
    using Cons.IH by simp
  show ?case
  proof (cases "f x = a")
    case True
    have "\<forall>y \<in> set (?as @ ?bs). f x \<le> f y" using True assms(2) by auto
    then have "insort_key f x (?as @ ?bs) = x # ?as @ ?bs" by (rule insort_key_front)
    with step True assms(2) show ?thesis by simp
  next
    case False
    then have fb: "f x = b" using assms(1) by blast
    have "\<forall>y \<in> set ?as. f y < f x" using fb assms(2) by simp
    then have "insort_key f x (?as @ ?bs) = ?as @ insort_key f x ?bs" by (rule insort_key_skip)
    moreover have "insort_key f x ?bs = x # ?bs"
      by (rule insort_key_front) (simp add: fb)
    ultimately show ?thesis using step fb assms(2) by simp
  qed
qed

lemma priority_sort:
  "sort_key (\<lambda>a. - priorityOf lower a) xs =
     filter (hasPriority lower) xs @ filter (\<lambda>a. \<not> hasPriority lower a) xs"
proof -
  have "sort_key (\<lambda>a. - priorityOf lower a) xs =
      filter (\<lambda>x. - priorityOf lower x = - 1) xs @ filter (\<lambda>x. - priorityOf lower x = 0) xs"
    by (rule sort_key_two_valued) (simp_all add: priorityOf_def)
  moreover have "(\<lambda>x. - priorityOf lower x = - 1) = hasPriority lower"
    by (rule ext) (simp add: priorityOf_def)
  moreover have "(\<lambda>x. - priorityOf lower x = 0) = (\<lambda>a. \<not> hasPriority lower a)"
    by (rule ext) (simp add: priorityOf_def)
  ultimately show ?thesis by simp
qed

lemma generateRecommendations_eq:
  "generateRecommendations lower rs =
     recommendations_spec lower (Array_from_Set (collectSuggestions rs))"
  by (simp add: generateRecommendations_def recommendations_spec_def priority_sort Let_def)

lemma distinct_partition:
  "distinct xs \<Longrightarrow> distinct (filter P xs @ filter (\<lambda>a. \<not> P a) xs)"
  by auto


lemma startsWith_iff: "startsWith s k \<longleftrightarrow> (\<exists>post. s = k @ post)"
  by (induction s k rule: startsWith.induct) auto

lemma String_includes_iff: "String_includes s k \<longleftrightarrow> (\<exists>pre post. s = pre @ k @ post)"
proof (induction s)
  case Nil
  then show ?case by simp
next
  case (Cons c cs)
  show ?case
  proof
    assume "String_includes (c # cs) k"
    then consider "startsWith (c # cs) k" | "String_includes cs k" by auto
    then show "\<exists>pre post. c # cs = pre @ k @ post"
    proof cases
      case 1
      then obtain post where "c # cs = k @ post" using startsWith_iff by blast
      then have "c # cs = [] @ k @ post" by simp
      then show ?thesis by blast
    next
      case 2
      then obtain pre post where "cs = pre @ k @ post" using Cons.IH by blast
      then have "c # cs = (c # pre) @ k @ post" by simp
      then show ?thesis by blast
    qed
  next
    assume "\<exists>pre post. c # cs = pre @ k @ post"
    then obtain pre post where e: "c # cs = pre @ k @ post" by blast
    show "String_includes (c # cs) k"
    proof (cases pre)
      case Nil
      with e have "c # cs = k @ post" by simp
      then have "startsWith (c # cs) k" using startsWith_iff by blast
      then show ?thesis by simp
    next
      case (Cons p ps)
      with e have "cs = ps @ k @ post" by simp
      then have "String_includes cs k" using Cons.IH by blast
      then show ?thesis by simp
    qed
  qed
qed

lemma hasPriority_iff:
  "hasPriority lower a \<longleftrightarrow>
     (\<exists>k \<in> set [''cr'' @ [CHR 0xC3, CHR 0xAD] @ ''tico'', ''urgente'',
                  ''aten'' @ [CHR 0xC3, CHR 0xA7, CHR 0xC3, CHR 0xA3] @ ''o'', ''impacto''].
        \<exists>pre post. lower a = pre @ k @ post)"
  unfolding hasPriority_def priorityKeywords_def list_ex_iff String_includes_iff ..

lemma first_occurrences_Cons:
  "rev (remdups (rev (x # xs))) = x # filter (\<lambda>y. y \<noteq> x) (rev (remdups (rev xs)))"
proof -
  have r: "remdups (ys @ [x]) = filter (\<lambda>y. y \<noteq> x) (remdups ys) @ [x]" for ys
    by (induction ys) auto
  show ?thesis by (simp add: r rev_filter)
qed

lemma Set_add_all_first_occurrences:
  "Set_add_all seen xs = seen @ filter (\<lambda>y. y \<notin> set seen) (rev (remdups (rev xs)))"
proof (induction xs arbitrary: seen)
  case Nil
  then show ?case by simp
next
  case (Cons x xs)
  let ?f = "rev (remdups (rev xs))"
  have fo: "rev (remdups (rev (x # xs))) = x # filter (\<lambda>y. y \<noteq> x) ?f"
    by (rule first_occurrences_Cons)
  show ?case
  proof (cases "x \<in> set seen")
    case True
    have "Set_add_all seen (x # xs) = Set_add_all seen xs" using True by simp
    also have "\<dots> = seen @ filter (\<lambda>y. y \<notin> set seen) ?f" by (rule Cons.IH)
    also have "filter (\<lambda>y. y \<notin> set seen) ?f
        = filter (\<lambda>y. y \<notin> set seen) (filter (\<lambda>y. y \<noteq> x) ?f)"
      using True by (auto intro: filter_cong)
    also have "\<dots> = filter (\<lambda>y. y \<notin> set seen) (x # filter (\<lambda>y. y \<noteq> x) ?f)"
      using True by simp
    finally show ?thesis unfolding fo .
  next
    case False
    have "Set_add_all seen (x # xs) = Set_add_all (seen @ [x]) xs" using False by simp
    also have "\<dots> = (seen @ [x]) @ filter (\<lambda>y. y \<notin> set (seen @ [x])) ?f" by (rule Cons.IH)
    also have "filter (\<lambda>y. y \<notin> set (seen @ [x])) ?f
        = filter (\<lambda>y. y \<notin> set seen) (filter (\<lambda>y. y \<noteq> x) ?f)"
      by (auto intro: filter_cong)
    also have "(seen @ [x]) @ filter (\<lambda>y. y \<notin> set seen) (filter (\<lambda>y. y \<noteq> x) ?f)
        = seen @ filter (\<lambda>y. y \<notin> set seen) (x # filter (\<lambda>y. y \<noteq> x) ?f)"
      using False by simp
    finally show ?thesis unfolding fo .
  qed
qed

lemma Array_from_Set_first_occurrences: "Array_from_Set xs = rev (remdups (rev xs))"
  by (simp add: Array_from_Set_def Set_add_all_first_occurrences)

lemma set_suggestions_union:
  "set (concat (map (\<lambda>r. case suggestions r of None \<Rightarrow> [] | Some ss \<Rightarrow> ss) rs))
     = (\<Union>r \<in> set rs. case suggestions r of None \<Rightarrow> {} | Some ss \<Rightarrow> set ss)"
  by (induction rs) (auto split: option.splits)

text \<open>
  Claim C9. The recommendations are built from the suggestion lists of all responses: their
  concatenation in the order of the responses, reduced to the first occurrence of every
  string (so its elements are exactly the union of the lists, without duplicates), then the
  suggestions whose lower-cased text contains one of the four urgency keywords as a
  substring before all the others, each group in its original order (the stable sort), cut
  to the first 10. Hence there are no duplicates and never more than 10 entries.
\<close>

theorem C9_generateRecommendations:
  "(\<exists>unique.
      unique = rev (remdups (rev (concat
                 (map (\<lambda>r. case suggestions r of None \<Rightarrow> [] | Some ss \<Rightarrow> ss) rs))))
    \<and> set unique = (\<Union>r \<in> set rs. case suggestions r of None \<Rightarrow> {} | Some ss \<Rightarrow> set ss)
    \<and> distinct unique
    \<and> generateRecommendations lower rs
        = take 10 (filter (hasPriority lower) unique
                   @ filter (\<lambda>a. \<not> hasPriority lower a) unique))
   \<and> (\<forall>a. hasPriority lower a \<longleftrightarrow>
          (\<exists>k \<in> set [''cr'' @ [CHR 0xC3, CHR 0xAD] @ ''tico'', ''urgente'',
                       ''aten'' @ [CHR 0xC3, CHR 0xA7, CHR 0xC3, CHR 0xA3] @ ''o'', ''impacto''].
             \<exists>pre post. lower a = pre @ k @ post))
   \<and> generateRecommendations lower rs =
       recommendations_spec lower (Array_from_Set (collectSuggestions rs))
   \<and> distinct (Array_from_Set (collectSuggestions rs))
   \<and> set (Array_from_Set (collectSuggestions rs)) = set (collectSuggestions rs)
   \<and> distinct (generateRecommendations lower rs)
   \<and> length (generateRecommendations lower rs) \<le> 10"
proof -
  let ?all = "concat (map (\<lambda>r. case suggestions r of None \<Rightarrow> [] | Some ss \<Rightarrow> ss) rs)"
  let ?u = "rev (remdups (rev ?all))"
  have cs: "collectSuggestions rs = ?all" by (simp add: collectSuggestions_def)
  have u: "Array_from_Set (collectSuggestions rs) = ?u"
    unfolding cs by (rule Array_from_Set_first_occurrences)
  have su: "set ?u = (\<Union>r \<in> set rs. case suggestions r of None \<Rightarrow> {} | Some ss \<Rightarrow> set ss)"
    using set_suggestions_union [of rs] by simp
  have du: "distinct ?u" by simp
  have eq: "generateRecommendations lower rs
      = take 10 (filter (hasPriority lower) ?u @ filter (\<lambda>a. \<not> hasPriority lower a) ?u)"
    unfolding generateRecommendations_eq u recommendations_spec_def ..
  have p1: "\<exists>unique.
      unique = ?u
    \<and> set unique = (\<Union>r \<in> set rs. case suggestions r of None \<Rightarrow> {} | Some ss \<Rightarrow> set ss)
    \<and> distinct unique
    \<and> generateRecommendations lower rs
        = take 10 (filter (hasPriority lower) unique
                   @ filter (\<lambda>a. \<not> hasPriority lower a) unique)"
    using su du eq by blast
  have p2: "\<forall>a. hasPriority lower a \<longleftrightarrow>
          (\<exists>k \<in> set [''cr'' @ [CHR 0xC3, CHR 0xAD] @ ''tico'', ''urgente'',
                       ''aten'' @ [CHR 0xC3, CHR 0xA7, CHR 0xC3, CHR 0xA3] @ ''o'', ''impacto''].
             \<exists>pre post. lower a = pre @ k @ post)"
    using hasPriority_iff by blast
  have p4: "distinct (Array_from_Set (collectSuggestions rs))" by (rule Array_from_Set_distinct)
  have p5: "set (Array_from_Set (collectSuggestions rs)) = set (collectSuggestions rs)"
    by (rule Array_from_Set_set)
  have p6: "distinct (generateRecommendations lower rs)"
    unfolding generateRecommendations_eq recommendations_spec_def
    by (intro distinct_take distinct_partition Array_from_Set_distinct)
  have p7: "length (generateRecommendations lower rs) \<le> 10"
    by (simp add: generateRecommendations_eq recommendations_spec_def)
  show ?thesis
    by (intro conjI) (fact p1 p2 generateRecommendations_eq p4 p5 p6 p7)+
qed


theorem C9_generateRecommendations_witness:
  "generateRecommendations id
     [\<lparr>agent = qa, response = ''x'', confidence = 1 / 2,
        suggestions = Some [''b'', ''impacto alto'', ''b'', ''c'']\<rparr>,
      \<lparr>agent = po, response = ''y'', confidence = 1 / 2, suggestions = None\<rparr>,
      \<lparr>agent = dba, response = ''z'', confidence = 1 / 2,
        suggestions = Some [''c'', ''urgente: z'']\<rparr>,
      \<lparr>agent = business, response = ''w'', confidence = 1 / 2,
        suggestions = Some [''d'', ''b'']\<rparr>]
     = [''impacto alto'', ''urgente: z'', ''b'', ''c'', ''d'']
   \<and> distinct (generateRecommendations id
     [\<lparr>agent = qa, response = ''x'', confidence = 1 / 2,
        suggestions = Some [''b'', ''impacto alto'', ''b'', ''c'']\<rparr>,
      \<lparr>agent = po, response = ''y'', confidence = 1 / 2, suggestions = None\<rparr>,
      \<lparr>agent = dba, response = ''z'', confidence = 1 / 2,
        suggestions = Some [''c'', ''urgente: z'']\<rparr>,
      \<lparr>agent = business, response = ''w'', confidence = 1 / 2,
        suggestions = Some [''d'', ''b'']\<rparr>])
   \<and> hasPriority id ''impacto alto'' \<and> \<not> hasPriority id ''b''"
proof -
  let ?rs = "[\<lparr>agent = qa, response = ''x'', confidence = 1 / 2,
        suggestions = Some [''b'', ''impacto alto'', ''b'', ''c'']\<rparr>,
      \<lparr>agent = po, response = ''y'', confidence = 1 / 2, suggestions = None\<rparr>,
      \<lparr>agent = dba, response = ''z'', confidence = 1 / 2,
        suggestions = Some [''c'', ''urgente: z'']\<rparr>,
      \<lparr>agent = business, response = ''w'', confidence = 1 / 2,
        suggestions = Some [''d'', ''b'']\<rparr>]"
  note th = C9_generateRecommendations [where lower = id and rs = ?rs]
  have all: "concat (map (\<lambda>r. case suggestions r of None \<Rightarrow> [] | Some ss \<Rightarrow> ss) ?rs)
      = [''b'', ''impacto alto'', ''b'', ''c'', ''c'', ''urgente: z'', ''d'', ''b'']"
    by simp
  have u: "rev (remdups (rev (concat
        (map (\<lambda>r. case suggestions r of None \<Rightarrow> [] | Some ss \<Rightarrow> ss) ?rs))))
      = [''b'', ''impacto alto'', ''c'', ''urgente: z'', ''d'']"
    unfolding all by simp
  have p: "hasPriority id ''impacto alto''" "hasPriority id ''urgente: z''"
    "\<not> hasPriority id ''b''" "\<not> hasPriority id ''c''" "\<not> hasPriority id ''d''"
    by (simp_all add: hasPriority_def priorityKeywords_def)
  from th obtain unique where
    "unique = rev (remdups (rev (concat
        (map (\<lambda>r. case suggestions r of None \<Rightarrow> [] | Some ss \<Rightarrow> ss) ?rs))))"
    and g: "generateRecommendations id ?rs
        = take 10 (filter (hasPriority id) unique @ filter (\<lambda>a. \<not> hasPriority id a) unique)"
    by (elim conjE exE)
  then have uq: "unique = [''b'', ''impacto alto'', ''c'', ''urgente: z'', ''d'']"
    using u by (simp only:)
  have v: "generateRecommendations id ?rs = [''impacto alto'', ''urgente: z'', ''b'', ''c'', ''d'']"
    unfolding g uq by (simp add: p)
  from th have d: "distinct (generateRecommendations id ?rs)" by (elim conjE)
  show ?thesis
    by (intro conjI) (fact v d p(1) p(3))+
qed

section \<open>Properties of the context manager\<close>

lemma DB_saveContext_row:
  "fst (DB_saveContext now c store) =
     c\<lparr>c_id := Some (next_context_id store), c_saved_at := now, c_is_active := True\<rparr>"
  by (simp add: DB_saveContext_def Let_def)

lemma DB_saveContext_next:
  "next_context_id (snd (DB_saveContext now c store)) = Suc (next_context_id store)"
  by (simp add: DB_saveContext_def Let_def)

lemma filter_deactivated:
  "filter (\<lambda>c. c_project_id c = p \<and> c_is_active c)
     (map (\<lambda>c. if c_project_id c = p then c\<lparr>c_is_active := False\<rparr> else c) rows) = []"
  by (induction rows) auto

lemma DB_saveContext_single_active:
  "activeRows (c_project_id c) (snd (DB_saveContext now c store)) = [fst (DB_saveContext now c store)]"
  by (simp add: activeRows_def DB_saveContext_def Let_def filter_deactivated)

lemma filter_map_other_key:
  assumes "q \<noteq> p" and "\<And>x. key (off x) = key x"
  shows "filter (\<lambda>x. key x = q \<and> act x) (map (\<lambda>x. if key x = p then off x else x) rows)
       = filter (\<lambda>x. key x = q \<and> act x) rows"
  using assms by (induction rows) auto

lemma filter_other_project:
  assumes "q \<noteq> p"
  shows "filter (\<lambda>c. c_project_id c = q \<and> c_is_active c)
     (map (\<lambda>c. if c_project_id c = p then c\<lparr>c_is_active := False\<rparr> else c) rows)
   = filter (\<lambda>c. c_project_id c = q \<and> c_is_active c) rows"
  by (rule filter_map_other_key [OF assms]) simp

lemma DB_saveContext_other_project:
  "q \<noteq> c_project_id c \<Longrightarrow>
   activeRows q (snd (DB_saveContext now c store)) = activeRows q store"
  by (simp add: DB_saveContext_def Let_def activeRows_def filter_other_project)

lemma saveContext_via_store:
  obtains c where "c_project_id c = d_project_id d"
    and "fst (saveContext now d sys) = fst (DB_saveContext now c (db sys))"
    and "db (snd (saveContext now d sys)) = snd (DB_saveContext now c (db sys))"
proof -
  define cts where "cts = \<lparr>c_id = None,
             c_project_id = d_project_id d,
             c_todo_id = d_todo_id d,
             c_task_id = d_task_id d,
             c_file_path = d_file_path d,
             c_line_number = d_line_number d,
             c_cursor_position = d_cursor_position d,
             c_working_directory = d_working_directory d,
             c_open_files = (case d_open_files d of None \<Rightarrow> [] | Some fs \<Rightarrow> fs),
             c_terminal_output = d_terminal_output d,
             c_session_data = (case d_session_data d of None \<Rightarrow> [] | Some sd \<Rightarrow> sd),
             c_next_action = d_next_action d,
             c_notes = d_notes d,
             c_saved_at = now,
             c_resumed_at = None,
             c_is_active = True,
             c_stack_depth = (case d_stack_depth d of None \<Rightarrow> 0 | Some n \<Rightarrow> n),
             c_parent_context_id = d_parent_context_id d\<rparr>"
  have "c_project_id cts = d_project_id d" by (simp add: cts_def)
  moreover have "fst (saveContext now d sys) = fst (DB_saveContext now cts (db sys))"
    by (simp add: saveContext_def Let_def split_def cts_def)
  moreover have "db (snd (saveContext now d sys)) = snd (DB_saveContext now cts (db sys))"
    by (simp add: saveContext_def Let_def split_def cts_def)
  ultimately show ?thesis by (rule that)
qed

lemma saveContext_single_active:
  "activeRows (d_project_id d) (db (snd (saveContext now d sys))) = [fst (saveContext now d sys)]"
proof -
  obtain c where c: "c_project_id c = d_project_id d"
    "fst (saveContext now d sys) = fst (DB_saveContext now c (db sys))"
    "db (snd (saveContext now d sys)) = snd (DB_saveContext now c (db sys))"
    by (rule saveContext_via_store)
  show ?thesis
    unfolding c(2,3) c(1) [symmetric] by (rule DB_saveContext_single_active)
qed

lemma saveContext_other_project:
  assumes "q \<noteq> d_project_id d"
  shows "activeRows q (db (snd (saveContext now d sys))) = activeRows q (db sys)"
proof -
  obtain c where c: "c_project_id c = d_project_id d"
    "fst (saveContext now d sys) = fst (DB_saveContext now c (db sys))"
    "db (snd (saveContext now d sys)) = snd (DB_saveContext now c (db sys))"
    by (rule saveContext_via_store)
  from assms c(1) have "q \<noteq> c_project_id c" by simp
  then show ?thesis
    unfolding c(3) by (rule DB_saveContext_other_project)
qed

lemma saveContext_fst:
  "c_project_id (fst (saveContext now d sys)) = d_project_id d"
  "c_is_active (fst (saveContext now d sys))"
  "c_id (fst (saveContext now d sys)) = Some (next_context_id (db sys))"
  by (simp_all add: saveContext_def DB_saveContext_def Let_def split_def)

lemma saveContext_next:
  "next_context_id (db (snd (saveContext now d sys))) = Suc (next_context_id (db sys))"
  by (simp add: saveContext_def DB_saveContext_def Let_def split_def)

lemma saveContext_cached:
  "cached (snd (saveContext now d sys)) (d_project_id d)
     = cached sys (d_project_id d) @ [fst (saveContext now d sys)]"
  by (simp add: saveContext_def Let_def split_def cached_def)

lemma getActiveContext_db: "db (snd (getActiveContext p sys)) = db sys"
  by (simp add: getActiveContext_def updateContextCache_def split: option.splits)

lemma getActiveContext_cached:
  assumes "find c_is_active (cached sys p) = Some a"
  shows "getActiveContext p sys = (Some a, sys)"
proof (cases "contextStack sys p")
  case None
  with assms show ?thesis by (simp add: cached_def)
next
  case (Some cs)
  with assms have "find c_is_active cs = Some a" by (simp add: cached_def)
  moreover from this have "cs \<noteq> []" by auto
  ultimately show ?thesis using Some by (simp add: getActiveContext_def)
qed

lemma find_append_none:
  "find P xs = None \<Longrightarrow> find P (xs @ ys) = find P ys"
  by (induction xs) (auto split: if_splits)

lemma popContext_no_parent:
  assumes "getActiveContext p sys = (Some cur, sys1)" and "c_parent_context_id cur = None"
  shows "popContext now p sys = Inr (None, sys1)" and "db sys1 = db sys"
proof -
  show "popContext now p sys = Inr (None, sys1)"
    using assms by (simp add: popContext_def)
  show "db sys1 = db sys"
    using getActiveContext_db [of p sys] assms(1) by simp
qed

lemma find_append_some:
  "find P xs = Some a \<Longrightarrow> find P (xs @ ys) = Some a"
  by (induction xs) (auto split: if_splits)

lemma two_saves_cache:
  assumes "d_project_id d1 = p" and "d_project_id d2 = p"
    and "saveContext t1 d1 sys = (c1, s1)" and "saveContext t2 d2 s1 = (c2, s2)"
  shows "cached s2 p = cached sys p @ [c1, c2]
       \<and> c_is_active c1 \<and> c_is_active c2
       \<and> c_id c1 = Some (next_context_id (db sys))
       \<and> c_id c2 = Some (Suc (next_context_id (db sys)))
       \<and> getActiveContext p s2 = (find c_is_active (cached sys p @ [c1, c2]), s2)
       \<and> (find c_is_active (cached sys p) = None \<longrightarrow> getActiveContext p s2 = (Some c1, s2))
       \<and> activeRows p (db s2) = [c2]"
proof -
  have c1: "c1 = fst (saveContext t1 d1 sys)" and s1: "s1 = snd (saveContext t1 d1 sys)"
    using assms(3) by simp_all
  have c2: "c2 = fst (saveContext t2 d2 s1)" and s2: "s2 = snd (saveContext t2 d2 s1)"
    using assms(4) by simp_all
  have cache1: "cached s1 p = cached sys p @ [c1]"
    unfolding c1 s1 using saveContext_cached [of t1 d1 sys] assms(1) by simp
  have cache2: "cached s2 p = cached sys p @ [c1, c2]"
    unfolding c2 s2 using saveContext_cached [of t2 d2 s1] assms(2) cache1 by simp
  have a1: "c_is_active c1" unfolding c1 by (rule saveContext_fst)
  have a2: "c_is_active c2" unfolding c2 by (rule saveContext_fst)
  have i1: "c_id c1 = Some (next_context_id (db sys))" unfolding c1 by (rule saveContext_fst)
  have "next_context_id (db s1) = Suc (next_context_id (db sys))"
    unfolding s1 by (rule saveContext_next)
  then have i2: "c_id c2 = Some (Suc (next_context_id (db sys)))"
    unfolding c2 by (simp add: saveContext_fst)
  have fresh: "find c_is_active (cached sys p) = None
      \<Longrightarrow> find c_is_active (cached sys p @ [c1, c2]) = Some c1"
    using a1 by (simp add: find_append_none)
  have ex: "\<exists>a. find c_is_active (cached sys p @ [c1, c2]) = Some a"
  proof (cases "find c_is_active (cached sys p)")
    case None
    then have "find c_is_active (cached sys p @ [c1, c2]) = Some c1" by (rule fresh)
    then show ?thesis ..
  next
    case (Some b)
    then have "find c_is_active (cached sys p @ [c1, c2]) = Some b" by (rule find_append_some)
    then show ?thesis ..
  qed
  then obtain a where a: "find c_is_active (cached sys p @ [c1, c2]) = Some a" ..
  have "find c_is_active (cached s2 p) = Some a" unfolding cache2 by (rule a)
  then have "getActiveContext p s2 = (Some a, s2)" by (rule getActiveContext_cached)
  then have g: "getActiveContext p s2 = (find c_is_active (cached sys p @ [c1, c2]), s2)"
    unfolding a .
  have g1: "find c_is_active (cached sys p) = None \<longrightarrow> getActiveContext p s2 = (Some c1, s2)"
  proof
    assume "find c_is_active (cached sys p) = None"
    then have "find c_is_active (cached sys p @ [c1, c2]) = Some c1" by (rule fresh)
    with g show "getActiveContext p s2 = (Some c1, s2)" by (simp only:)
  qed
  have r: "activeRows p (db s2) = [c2]"
    unfolding c2 s2 using saveContext_single_active [of d2 t2 s1] assms(2) by simp
  show ?thesis
    by (intro conjI) (fact cache2 a1 a2 i1 i2 g g1 r)+
qed


lemma getActiveContext_none:
  assumes "find c_is_active (cached sys p) = None" and "DB_getActiveContext p (db sys) = None"
  shows "getActiveContext p sys = (None, sys)"
proof (cases "contextStack sys p")
  case None
  with assms(2) show ?thesis by (simp add: getActiveContext_def)
next
  case (Some cs)
  with assms(1) have "find c_is_active cs = None" by (simp add: cached_def)
  with Some assms(2) show ?thesis by (simp add: getActiveContext_def)
qed

text \<open>A push is the save of the completed data on the system that \<open>getActiveContext\<close> left.\<close>

lemma pushContext_as_save:
  assumes "getActiveContext p sys = (cur, sys1)"
    and "p_project_id e = None \<or> p_project_id e = Some p"
  obtains d where "d_project_id d = p" and "pushContext now p e sys = saveContext now d sys1"
proof -
  define d where "d =
            \<lparr>d_todo_id = d_todo_id e,
             d_task_id = d_task_id e,
             d_file_path = d_file_path e,
             d_line_number = d_line_number e,
             d_cursor_position = d_cursor_position e,
             d_working_directory = d_working_directory e,
             d_open_files = d_open_files e,
             d_terminal_output = d_terminal_output e,
             d_session_data = d_session_data e,
             d_next_action = d_next_action e,
             d_notes = d_notes e,
             d_stack_depth = (case d_stack_depth e of
                                None \<Rightarrow> Some (case cur of None \<Rightarrow> 0 | Some c \<Rightarrow> c_stack_depth c + 1)
                              | Some n \<Rightarrow> Some n),
             d_parent_context_id =
               (case d_parent_context_id e of
                  None \<Rightarrow> (case cur of None \<Rightarrow> None | Some c \<Rightarrow> c_id c)
                | Some i \<Rightarrow> Some i),
             d_project_id = p\<rparr>"
  have q: "(case p_project_id e of None \<Rightarrow> p | Some q \<Rightarrow> q) = p"
    using assms(2) by (cases "p_project_id e") simp_all
  have "d_project_id d = p" by (simp add: d_def)
  moreover have "pushContext now p e sys = saveContext now d sys1"
    unfolding pushContext_def assms(1) d_def q by (simp add: Let_def)
  ultimately show ?thesis by (rule that)
qed

lemma two_pushes_cache:
  assumes e1: "p_project_id e1 = None \<or> p_project_id e1 = Some p"
    and e2: "p_project_id e2 = None \<or> p_project_id e2 = Some p"
    and p1: "pushContext t1 p e1 sys = (b1, r1)" and p2: "pushContext t2 p e2 r1 = (b2, r2)"
    and nc: "find c_is_active (cached sys p) = None"
    and nr: "DB_getActiveContext p (db sys) = None"
  shows "getActiveContext p r2 = (Some b1, r2)"
    and "c_id b1 = Some (next_context_id (db sys))"
    and "c_id b2 = Some (Suc (next_context_id (db sys)))"
    and "activeRows p (db r2) = [b2]"
    and "cached r2 p = cached sys p @ [b1, b2]"
    and "c_is_active b1" and "c_is_active b2"
proof -
  have g0: "getActiveContext p sys = (None, sys)" using nc nr by (rule getActiveContext_none)
  obtain d1 where d1: "d_project_id d1 = p" "pushContext t1 p e1 sys = saveContext t1 d1 sys"
    using pushContext_as_save [OF g0 e1] by blast
  have s1: "saveContext t1 d1 sys = (b1, r1)" using d1(2) p1 by simp
  have b1: "b1 = fst (saveContext t1 d1 sys)" and r1: "r1 = snd (saveContext t1 d1 sys)"
    using s1 by simp_all
  have "cached r1 p = cached sys p @ [b1]"
    unfolding b1 r1 using saveContext_cached [of t1 d1 sys] d1(1) by simp
  moreover have "c_is_active b1" unfolding b1 by (rule saveContext_fst)
  ultimately have "find c_is_active (cached r1 p) = Some b1"
    using nc by (simp add: find_append_none)
  then have g1: "getActiveContext p r1 = (Some b1, r1)" by (rule getActiveContext_cached)
  obtain d2 where d2: "d_project_id d2 = p" "pushContext t2 p e2 r1 = saveContext t2 d2 r1"
    using pushContext_as_save [OF g1 e2] by blast
  have s2: "saveContext t2 d2 r1 = (b2, r2)" using d2(2) p2 by simp
  note th = two_saves_cache [OF d1(1) d2(1) s1 s2]
  from th have "find c_is_active (cached sys p) = None \<longrightarrow> getActiveContext p r2 = (Some b1, r2)"
    by (elim conjE)
  with nc show "getActiveContext p r2 = (Some b1, r2)" by (rule mp [rotated])
  from th show "c_id b1 = Some (next_context_id (db sys))" by (elim conjE)
  from th show "c_id b2 = Some (Suc (next_context_id (db sys)))" by (elim conjE)
  from th show "activeRows p (db r2) = [b2]" by (elim conjE)
  from th show "cached r2 p = cached sys p @ [b1, b2]" by (elim conjE)
  from th show "c_is_active b1" by (elim conjE)
  from th show "c_is_active b2" by (elim conjE)
qed

text \<open>
  Claim C10 as stated, refuted. Three saves A, B, C on a fresh system: the cache holds the
  active entry A before the two saves B and C, and afterwards \<open>getActiveContext\<close> returns A,
  which is neither of the two. The same happens with \<open>pushContext\<close> when the cache is empty
  but the store holds an active row: A is pushed, the cache is cleared, and the push of B
  first loads A into the cache; after the pushes of B and C the answer is again A.
\<close>

theorem C10_stale_cache_counterexample:
  "fst (getActiveContext ''p''
         (snd (saveContext 30 (projectNotes ''p'' ''C'')
           (snd (saveContext 20 (projectNotes ''p'' ''B'')
             (snd (saveContext 10 (projectNotes ''p'' ''A'') freshSystem)))))))
     \<noteq> Some (fst (saveContext 20 (projectNotes ''p'' ''B'')
                  (snd (saveContext 10 (projectNotes ''p'' ''A'') freshSystem))))
   \<and> map_option c_id
        (fst (getActiveContext ''p''
          (snd (saveContext 30 (projectNotes ''p'' ''C'')
            (snd (saveContext 20 (projectNotes ''p'' ''B'')
              (snd (saveContext 10 (projectNotes ''p'' ''A'') freshSystem))))))))
     = Some (Some 1)
   \<and> map_option c_notes
        (fst (getActiveContext ''p''
          (snd (saveContext 30 (projectNotes ''p'' ''C'')
            (snd (saveContext 20 (projectNotes ''p'' ''B'')
              (snd (saveContext 10 (projectNotes ''p'' ''A'') freshSystem))))))))
     = Some (Some ''A'')
   \<and> c_id (fst (saveContext 20 (projectNotes ''p'' ''B'')
               (snd (saveContext 10 (projectNotes ''p'' ''A'') freshSystem)))) = Some 2
   \<and> map c_id
        (activeRows ''p''
          (db (snd (saveContext 30 (projectNotes ''p'' ''C'')
            (snd (saveContext 20 (projectNotes ''p'' ''B'')
              (snd (saveContext 10 (projectNotes ''p'' ''A'') freshSystem))))))))
     = [Some 3]
   \<and> find c_is_active
        (cached (clearCache (Some ''p'')
                  (snd (pushContext 10 ''p'' (notesOnly ''A'') freshSystem))) ''p'') = None
   \<and> fst (getActiveContext ''p''
          (snd (pushContext 30 ''p'' (notesOnly ''C'')
            (snd (pushContext 20 ''p'' (notesOnly ''B'')
              (clearCache (Some ''p'')
                (snd (pushContext 10 ''p'' (notesOnly ''A'') freshSystem))))))))
     \<noteq> Some (fst (pushContext 20 ''p'' (notesOnly ''B'')
                  (clearCache (Some ''p'')
                    (snd (pushContext 10 ''p'' (notesOnly ''A'') freshSystem)))))
   \<and> c_id (fst (pushContext 20 ''p'' (notesOnly ''B'')
               (clearCache (Some ''p'')
                 (snd (pushContext 10 ''p'' (notesOnly ''A'') freshSystem))))) = Some 2
   \<and> map_option c_id
        (fst (getActiveContext ''p''
          (snd (pushContext 30 ''p'' (notesOnly ''C'')
            (snd (pushContext 20 ''p'' (notesOnly ''B'')
              (clearCache (Some ''p'')
                (snd (pushContext 10 ''p'' (notesOnly ''A'') freshSystem)))))))))
     = Some (Some 1)
   \<and> map_option c_notes
        (fst (getActiveContext ''p''
          (snd (pushContext 30 ''p'' (notesOnly ''C'')
            (snd (pushContext 20 ''p'' (notesOnly ''B'')
              (clearCache (Some ''p'')
                (snd (pushContext 10 ''p'' (notesOnly ''A'') freshSystem)))))))))
     = Some (Some ''A'')
   \<and> map c_id
        (activeRows ''p''
          (db (snd (pushContext 30 ''p'' (notesOnly ''C'')
            (snd (pushContext 20 ''p'' (notesOnly ''B'')
              (clearCache (Some ''p'')
                (snd (pushContext 10 ''p'' (notesOnly ''A'') freshSystem)))))))))
     = [Some 3]"
  by code_simp

text \<open>
  Claim C10, amended. \<open>saveContext\<close> appends the new context to the project's cached list
  and leaves the flags of the entries already cached as they are; \<open>getActiveContext\<close>
  answers with the first cached entry whose flag is set, so after two saves it answers from
  the stale list. When the cache held no active entry of the project before the two saves, it
  returns the context of the first save (the older id) and not that of the second, although
  the store holds the second as the only active row. The same holds for two calls of
  \<open>pushContext\<close> when, in addition, the store held no active row of the project before
  them (so that the first push loads nothing into the cache).
\<close>

theorem C10_stale_cache_amended:
  "(d_project_id d1 = p \<and> d_project_id d2 = p
      \<and> saveContext t1 d1 sys = (c1, s1) \<and> saveContext t2 d2 s1 = (c2, s2)
    \<longrightarrow> cached s2 p = cached sys p @ [c1, c2]
      \<and> c_is_active c1 \<and> c_is_active c2
      \<and> c_id c1 = Some (next_context_id (db sys))
      \<and> c_id c2 = Some (Suc (next_context_id (db sys)))
      \<and> c1 \<noteq> c2
      \<and> getActiveContext p s2 = (find c_is_active (cached sys p @ [c1, c2]), s2)
      \<and> (find c_is_active (cached sys p) = None \<longrightarrow> getActiveContext p s2 = (Some c1, s2))
      \<and> activeRows p (db s2) = [c2])
   \<and> ((p_project_id e1 = None \<or> p_project_id e1 = Some p)
      \<and> (p_project_id e2 = None \<or> p_project_id e2 = Some p)
      \<and> pushContext t1 p e1 sys = (b1, r1) \<and> pushContext t2 p e2 r1 = (b2, r2)
      \<and> find c_is_active (cached sys p) = None \<and> DB_getActiveContext p (db sys) = None
    \<longrightarrow> cached r2 p = cached sys p @ [b1, b2]
      \<and> c_is_active b1 \<and> c_is_active b2
      \<and> c_id b1 = Some (next_context_id (db sys))
      \<and> c_id b2 = Some (Suc (next_context_id (db sys)))
      \<and> b1 \<noteq> b2
      \<and> getActiveContext p r2 = (Some b1, r2)
      \<and> activeRows p (db r2) = [b2])"
proof (intro conjI impI)
  assume h: "d_project_id d1 = p \<and> d_project_id d2 = p
      \<and> saveContext t1 d1 sys = (c1, s1) \<and> saveContext t2 d2 s1 = (c2, s2)"
  then have h1: "d_project_id d1 = p" and h2: "d_project_id d2 = p"
    and h3: "saveContext t1 d1 sys = (c1, s1)" and h4: "saveContext t2 d2 s1 = (c2, s2)"
    by blast+
  note th = two_saves_cache [OF h1 h2 h3 h4]
  from th show "cached s2 p = cached sys p @ [c1, c2]" by (elim conjE)
  from th show "c_is_active c1" by (elim conjE)
  from th show "c_is_active c2" by (elim conjE)
  from th show i1: "c_id c1 = Some (next_context_id (db sys))" by (elim conjE)
  from th show i2: "c_id c2 = Some (Suc (next_context_id (db sys)))" by (elim conjE)
  from i1 i2 show "c1 \<noteq> c2" by auto
  from th show "getActiveContext p s2 = (find c_is_active (cached sys p @ [c1, c2]), s2)"
    by (elim conjE)
  from th have imp: "find c_is_active (cached sys p) = None \<longrightarrow> getActiveContext p s2 = (Some c1, s2)"
    by (elim conjE)
  {
    assume "find c_is_active (cached sys p) = None"
    with imp show "getActiveContext p s2 = (Some c1, s2)" by (rule mp)
  }
  from th show "activeRows p (db s2) = [c2]" by (elim conjE)
next
  assume h: "(p_project_id e1 = None \<or> p_project_id e1 = Some p)
      \<and> (p_project_id e2 = None \<or> p_project_id e2 = Some p)
      \<and> pushContext t1 p e1 sys = (b1, r1) \<and> pushContext t2 p e2 r1 = (b2, r2)
      \<and> find c_is_active (cached sys p) = None \<and> DB_getActiveContext p (db sys) = None"
  then have h1: "p_project_id e1 = None \<or> p_project_id e1 = Some p"
    and h2: "p_project_id e2 = None \<or> p_project_id e2 = Some p"
    and h3: "pushContext t1 p e1 sys = (b1, r1)" and h4: "pushContext t2 p e2 r1 = (b2, r2)"
    and h5: "find c_is_active (cached sys p) = None"
    and h6: "DB_getActiveContext p (db sys) = None" by blast+
  note th = two_pushes_cache [OF h1 h2 h3 h4 h5 h6]
  show "cached r2 p = cached sys p @ [b1, b2]" by (rule th(5))
  show "c_is_active b1" by (rule th(6))
  show "c_is_active b2" by (rule th(7))
  show i1: "c_id b1 = Some (next_context_id (db sys))" by (rule th(2))
  show i2: "c_id b2 = Some (Suc (next_context_id (db sys)))" by (rule th(3))
  from i1 i2 show "b1 \<noteq> b2" by auto
  show "getActiveContext p r2 = (Some b1, r2)" by (rule th(1))
  show "activeRows p (db r2) = [b2]" by (rule th(4))
qed

theorem C10_stale_cache_amended_witness:
  "d_project_id (projectNotes ''p'' ''A'') = ''p'' \<and> d_project_id (projectNotes ''p'' ''B'') = ''p''
   \<and> p_project_id (notesOnly ''A'') = None \<and> p_project_id (notesOnly ''B'') = None
   \<and> find c_is_active (cached freshSystem ''p'') = None
   \<and> DB_getActiveContext ''p'' (db freshSystem) = None
   \<and> fst (getActiveContext ''p''
        (snd (saveContext 20 (projectNotes ''p'' ''B'')
          (snd (saveContext 10 (projectNotes ''p'' ''A'') freshSystem)))))
       = Some (fst (saveContext 10 (projectNotes ''p'' ''A'') freshSystem))
   \<and> c_notes (fst (saveContext 10 (projectNotes ''p'' ''A'') freshSystem)) = Some ''A''
   \<and> c_id (fst (saveContext 10 (projectNotes ''p'' ''A'') freshSystem)) = Some 1
   \<and> activeRows ''p''
        (db (snd (saveContext 20 (projectNotes ''p'' ''B'')
          (snd (saveContext 10 (projectNotes ''p'' ''A'') freshSystem)))))
       = [fst (saveContext 20 (projectNotes ''p'' ''B'')
            (snd (saveContext 10 (projectNotes ''p'' ''A'') freshSystem)))]
   \<and> c_id (fst (saveContext 20 (projectNotes ''p'' ''B'')
            (snd (saveContext 10 (projectNotes ''p'' ''A'') freshSystem)))) = Some 2
   \<and> fst (getActiveContext ''p''
        (snd (pushContext 20 ''p'' (notesOnly ''B'')
          (snd (pushContext 10 ''p'' (notesOnly ''A'') freshSystem)))))
       = Some (fst (pushContext 10 ''p'' (notesOnly ''A'') freshSystem))
   \<and> c_notes (fst (pushContext 10 ''p'' (notesOnly ''A'') freshSystem)) = Some ''A''
   \<and> c_id (fst (pushContext 10 ''p'' (notesOnly ''A'') freshSystem)) = Some 1
   \<and> activeRows ''p''
        (db (snd (pushContext 20 ''p'' (notesOnly ''B'')
          (snd (pushContext 10 ''p'' (notesOnly ''A'') freshSystem)))))
       = [fst (pushContext 20 ''p'' (notesOnly ''B'')
            (snd (pushContext 10 ''p'' (notesOnly ''A'') freshSystem)))]
   \<and> c_id (fst (pushContext 20 ''p'' (notesOnly ''B'')
            (snd (pushContext 10 ''p'' (notesOnly ''A'') freshSystem)))) = Some 2"
proof -
  let ?r1 = "saveContext 10 (projectNotes ''p'' ''A'') freshSystem"
  let ?r2 = "saveContext 20 (projectNotes ''p'' ''B'') (snd ?r1)"
  let ?q1 = "pushContext 10 ''p'' (notesOnly ''A'') freshSystem"
  let ?q2 = "pushContext 20 ''p'' (notesOnly ''B'') (snd ?q1)"
  have h1: "d_project_id (projectNotes ''p'' ''A'') = ''p''" by (simp add: projectNotes_def)
  have h2: "d_project_id (projectNotes ''p'' ''B'') = ''p''" by (simp add: projectNotes_def)
  have h3: "?r1 = (fst ?r1, snd ?r1)" by simp
  have h4: "?r2 = (fst ?r2, snd ?r2)" by simp
  have h5: "find c_is_active (cached freshSystem ''p'') = None"
    by (simp add: cached_def freshSystem_def)
  have h6: "DB_getActiveContext ''p'' (db freshSystem) = None" by code_simp
  have k1: "p_project_id (notesOnly ''A'') = None" by (simp add: notesOnly_def emptyData_def)
  have k2: "p_project_id (notesOnly ''B'') = None" by (simp add: notesOnly_def emptyData_def)
  have k3: "?q1 = (fst ?q1, snd ?q1)" by simp
  have k4: "?q2 = (fst ?q2, snd ?q2)" by simp
  have n: "next_context_id (db freshSystem) = 1" by (simp add: freshSystem_def emptyStore_def)
  have nt: "c_notes (fst ?r1) = Some ''A''" by code_simp
  have nq: "c_notes (fst ?q1) = Some ''A''" by code_simp
  note th = C10_stale_cache_amended [where p = "''p''" and sys = freshSystem
      and ?d1.0 = "projectNotes ''p'' ''A''" and ?d2.0 = "projectNotes ''p'' ''B''"
      and ?t1.0 = 10 and ?t2.0 = 20
      and ?c1.0 = "fst ?r1" and ?s1.0 = "snd ?r1" and ?c2.0 = "fst ?r2" and ?s2.0 = "snd ?r2"
      and ?e1.0 = "notesOnly ''A''" and ?e2.0 = "notesOnly ''B''"
      and ?b1.0 = "fst ?q1" and ?r1.0 = "snd ?q1" and ?b2.0 = "fst ?q2" and ?r2.0 = "snd ?q2"]
  have hs: "d_project_id (projectNotes ''p'' ''A'') = ''p''
      \<and> d_project_id (projectNotes ''p'' ''B'') = ''p''
      \<and> ?r1 = (fst ?r1, snd ?r1) \<and> ?r2 = (fst ?r2, snd ?r2)"
    by (intro conjI) (fact h1 h2 h3 h4)+
  have hp: "(p_project_id (notesOnly ''A'') = None \<or> p_project_id (notesOnly ''A'') = Some ''p'')
      \<and> (p_project_id (notesOnly ''B'') = None \<or> p_project_id (notesOnly ''B'') = Some ''p'')
      \<and> ?q1 = (fst ?q1, snd ?q1) \<and> ?q2 = (fst ?q2, snd ?q2)
      \<and> find c_is_active (cached freshSystem ''p'') = None
      \<and> DB_getActiveContext ''p'' (db freshSystem) = None"
    by (intro conjI disjI1) (fact k1 k2 k3 k4 h5 h6)+
  note ts = mp [OF conjunct1 [OF th] hs]
  note tp = mp [OF conjunct2 [OF th] hp]
  from ts have imp: "find c_is_active (cached freshSystem ''p'') = None
      \<longrightarrow> getActiveContext ''p'' (snd ?r2) = (Some (fst ?r1), snd ?r2)"
    by (elim conjE)
  from imp h5 have g: "getActiveContext ''p'' (snd ?r2) = (Some (fst ?r1), snd ?r2)"
    by (rule mp)
  from ts have "c_id (fst ?r1) = Some (next_context_id (db freshSystem))" by (elim conjE)
  then have i1: "c_id (fst ?r1) = Some 1" unfolding n .
  from ts have "c_id (fst ?r2) = Some (Suc (next_context_id (db freshSystem)))" by (elim conjE)
  then have i2: "c_id (fst ?r2) = Some 2" unfolding n by simp
  from ts have r: "activeRows ''p'' (db (snd ?r2)) = [fst ?r2]" by (elim conjE)
  have g': "fst (getActiveContext ''p'' (snd ?r2)) = Some (fst ?r1)"
    unfolding g by (rule fst_conv)
  from tp have gq: "getActiveContext ''p'' (snd ?q2) = (Some (fst ?q1), snd ?q2)"
    by (elim conjE)
  from tp have "c_id (fst ?q1) = Some (next_context_id (db freshSystem))" by (elim conjE)
  then have j1: "c_id (fst ?q1) = Some 1" unfolding n .
  from tp have "c_id (fst ?q2) = Some (Suc (next_context_id (db freshSystem)))" by (elim conjE)
  then have j2: "c_id (fst ?q2) = Some 2" unfolding n by simp
  from tp have rq: "activeRows ''p'' (db (snd ?q2)) = [fst ?q2]" by (elim conjE)
  have gq': "fst (getActiveContext ''p'' (snd ?q2)) = Some (fst ?q1)"
    unfolding gq by (rule fst_conv)
  show ?thesis
    by (intro conjI) (fact h1 h2 k1 k2 h5 h6 g' nt i1 r i2 gq' nq j1 rq j2)+
qed

text \<open>
  Claim C1, evaluated where it fails. A save leaves exactly the new row active (lemma
  \<open>saveContext_single_active\<close>), but the invariant is not kept by every sequence of
  operations. On a fresh system: push A, push B, clear the cache, push C, pop. The push of C
  reads B from the store into the cache, where its flag stays set after C is saved; the pop
  then takes the cached B for the current context, fetches its parent A and sets A active.
  The store now holds two active rows of the project, A and C.
\<close>

theorem C1_two_active_rows:
  "(case popContext 40 ''p''
           (snd (pushContext 30 ''p'' (notesOnly ''C'')
             (clearCache (Some ''p'')
               (snd (pushContext 20 ''p'' (notesOnly ''B'')
                 (snd (pushContext 10 ''p'' (notesOnly ''A'') freshSystem))))))) of
      Inl e \<Rightarrow> False
    | Inr (r, s) \<Rightarrow>
        map (\<lambda>c. (c_id c, c_notes c, c_project_id c, c_is_active c)) (activeRows ''p'' (db s))
          = [(Some 1, Some ''A'', ''p'', True), (Some 3, Some ''C'', ''p'', True)])"
  by code_simp

text \<open>
  Claim C6, evaluated where it fails. On a fresh system push A, push B, pop: the pop asks
  \<open>getActiveContext\<close>, which answers with the cached A, whose flag is still set; A has no
  parent, so the pop returns \<open>null\<close> and changes nothing. B stays the active row, A stays
  inactive with no \<open>resumed_at\<close>. When the cache is cleared before the pop, the store ends
  as the scenario says (A active with \<open>resumed_at\<close>, B inactive), and the object returned
  is A as fetched before its reactivation.
\<close>

theorem C6_pop_after_two_pushes:
  "(case popContext 30 ''p''
           (snd (pushContext 20 ''p'' (notesOnly ''B'')
             (snd (pushContext 10 ''p'' (notesOnly ''A'') freshSystem)))) of
      Inl e \<Rightarrow> False
    | Inr (r, s) \<Rightarrow>
        r = None
      \<and> map (\<lambda>c. (c_id c, c_notes c, c_parent_context_id c, c_is_active c, c_resumed_at c))
            (context_stack (db s))
          = [(Some 1, Some ''A'', None, False, None), (Some 2, Some ''B'', Some 1, True, None)])
   \<and> (case popContext 30 ''p''
           (clearCache (Some ''p'')
             (snd (pushContext 20 ''p'' (notesOnly ''B'')
               (snd (pushContext 10 ''p'' (notesOnly ''A'') freshSystem))))) of
      Inl e \<Rightarrow> False
    | Inr (r, s) \<Rightarrow>
        map_option (\<lambda>c. (c_id c, c_notes c, c_is_active c, c_resumed_at c)) r
          = Some (Some 1, Some ''A'', False, None)
      \<and> map (\<lambda>c. (c_id c, c_notes c, c_parent_context_id c, c_is_active c, c_resumed_at c))
            (context_stack (db s))
          = [(Some 1, Some ''A'', None, True, Some 30), (Some 2, Some ''B'', Some 1, False, None)])"
  by code_simp

section \<open>Properties of the command processor\<close>

lemma latest_by_mem: "latest_by f xs = Some x \<Longrightarrow> x \<in> set xs"
  by (induction xs arbitrary: x) (auto split: option.splits if_splits)

lemma DB_getActiveTodo_mem:
  "DB_getActiveTodo p store = Some td \<Longrightarrow> td \<in> set (todos store)"
  by (auto simp: DB_getActiveTodo_def dest: latest_by_mem)

lemma DB_listTasks_mem:
  "t \<in> set (DB_listTasks i st store) \<Longrightarrow> t \<in> set (tasks store)"
  by (auto simp: DB_listTasks_def)

lemma find_mem: "find P xs = Some x \<Longrightarrow> x \<in> set xs \<and> P x"
  by (induction xs) (auto split: if_splits)

lemma find_exists: "x \<in> set xs \<Longrightarrow> P x \<Longrightarrow> \<exists>y. find P xs = Some y"
  by (induction xs) auto

lemma executeTask_ok:
  assumes "target \<in> set (tasks store)" and "task_id target = Some i"
  shows "\<exists>store1. executeTask now target a store = Inr store1 \<and> todos store1 = todos store"
proof -
  let ?u1 = "\<lambda>t. t\<lparr>status := in_progress, started_at := Some now\<rparr>"
  obtain y where y: "find (\<lambda>t. task_id t = Some i) (tasks store) = Some y"
    using find_exists [of target "tasks store" "\<lambda>t. task_id t = Some i"] assms by blast
  let ?s1 = "store\<lparr>tasks := map (\<lambda>r. if task_id r = Some i then ?u1 r else r) (tasks store)\<rparr>"
  have u1: "DB_updateTask i ?u1 store = Inr (?u1 y, ?s1)"
    by (simp add: DB_updateTask_def y)
  have "?u1 target \<in> set (tasks ?s1)" using assms by force
  moreover have "task_id (?u1 target) = Some i" using assms(2) by simp
  ultimately obtain z where z: "find (\<lambda>t. task_id t = Some i) (tasks ?s1) = Some z"
    using find_exists [of "?u1 target" "tasks ?s1" "\<lambda>t. task_id t = Some i"] by blast
  show ?thesis
    using assms(2) u1 z
    by (simp add: executeTask_def DB_updateTask_def Let_def)
qed

lemma handleExecute_forced:
  "fst (handleExecute now n True context a store) \<noteq> PendingDependencies k ds"
  by (simp add: handleExecute_def Let_def split: option.splits sum.splits prod.splits)

lemma handleExecute_forced_succeeds:
  assumes "n \<noteq> 0" and "DB_getActiveTodo (projectId context) store = Some td"
    and "find (\<lambda>t. sequence_number t = n) (DB_listTasks (td_id td) None store) = Some target"
    and "task_id target = Some i"
  shows "\<exists>pr store'. handleExecute now (Some n) True context a store = (TaskExecuted n pr, store')"
    and "execute_success (fst (handleExecute now (Some n) True context a store))"
proof -
  have "target \<in> set (tasks store)"
    using find_mem [OF assms(3)] DB_listTasks_mem by blast
  then obtain store1 where e: "executeTask now target a store = Inr store1"
    and t: "todos store1 = todos store"
    using executeTask_ok [OF _ assms(4)] by blast
  have "td \<in> set (todos store1)" using DB_getActiveTodo_mem [OF assms(2)] t by simp
  then obtain y where y: "find (\<lambda>t. td_id t = td_id td) (todos store1) = Some y"
    using find_exists [of td "todos store1" "\<lambda>t. td_id t = td_id td"] by blast
  show ex: "\<exists>pr store'. handleExecute now (Some n) True context a store = (TaskExecuted n pr, store')"
    using assms(1,2,3) e y
    by (simp add: handleExecute_def Let_def DB_updateTodo_def)
  then obtain pr store' where "handleExecute now (Some n) True context a store = (TaskExecuted n pr, store')"
    by blast
  then show "execute_success (fst (handleExecute now (Some n) True context a store))"
    by simp
qed

lemma handleExecute_gate:
  assumes "n \<noteq> 0" and "DB_getActiveTodo (projectId context) store = Some td"
    and "find (\<lambda>t. sequence_number t = n) (DB_listTasks (td_id td) None store) = Some target"
    and "checkTaskDependencies target store \<noteq> []"
  shows "handleExecute now (Some n) False context a store
           = (PendingDependencies n (checkTaskDependencies target store), store)"
proof -
  from assms(4) have "dependencies target \<noteq> []"
    by (auto simp: checkTaskDependencies_def)
  with assms show ?thesis by (simp add: handleExecute_def Let_def)
qed

lemma generateTasks_chain:
  assumes "truthy (consensus developer) \<or> \<not> truthy (consensus qa)"
  shows "map sequence_number (generateTasksFromAnalysis todo consensus)
           = [1 ..< Suc (length (generateTasksFromAnalysis todo consensus))]"
    and "map dependencies (generateTasksFromAnalysis todo consensus)
           = map (\<lambda>k. if k = 1 then [] else [k - 1])
               [1 ..< Suc (length (generateTasksFromAnalysis todo consensus))]"
  using assms
  by (auto simp: generateTasksFromAnalysis_def planningTask_def implementationTask_def
      testTask_def upt_rec)

text \<open>
  Claim C3, evaluated where it fails. A todo with three pending tasks: task 1 is executed
  (progress 0 of 3 completed is written: 0) and then confirmed. The confirmation completes
  task 1 and finds the next pending task, so it does not write the todo: the stored progress
  stays 0 while one of three tasks is completed, for which the specified value is 33.
\<close>

theorem C3_progress_after_confirm:
  "(case handleExecute 2 (Some 1) False user None (db oneTodoSystem) of
      (r1, store1) \<Rightarrow>
        (case handleConfirm 3 None user (oneTodoSystem\<lparr>db := store1\<rparr>) of
           (r2, sys2) \<Rightarrow>
             r1 = TaskExecuted 1 0
           \<and> (case r2 of TaskConfirmed t n a \<Rightarrow> task_id t = Some 1 | _ \<Rightarrow> False)
           \<and> map (\<lambda>t. (sequence_number t, status t)) (tasks (db sys2))
                = [(1, completed), (2, pending), (3, pending)]
           \<and> map (\<lambda>t. (td_id t, td_status t, td_progress_percentage t)) (todos (db sys2))
                = [(''TODO-1'', todo_in_progress, 0)]
           \<and> completedSteps ''TODO-1'' (db sys2) = 1
           \<and> totalSteps ''TODO-1'' (db sys2) = 3
           \<and> progress_spec ''TODO-1'' (db sys2) = 33))"
  by code_simp

text \<open>
  Claim C4, evaluated where it fails. The store holds two todos with their generated tasks,
  numbered 1 to 6 by the store. Task 2 of the active todo (row 5) depends on sequence number
  1, the todo's own first task (row 4), which is pending. The gate looks the number 1 up as a
  primary key, finds the completed first task of the other todo and lets the start pass
  without the force flag.
\<close>

theorem C4_gate_reads_foreign_task:
  "map (\<lambda>t. (task_id t, todo_id t, sequence_number t, status t, dependencies t))
       (tasks twoTodoStore)
     = [(Some 1, ''TODO-1'', 1, completed, []), (Some 2, ''TODO-1'', 2, completed, [1]),
        (Some 3, ''TODO-1'', 3, completed, [2]), (Some 4, ''TODO-2'', 1, pending, []),
        (Some 5, ''TODO-2'', 2, pending, [1]), (Some 6, ''TODO-2'', 3, pending, [2])]
   \<and> map_option td_id (DB_getActiveTodo ''p'' twoTodoStore) = Some ''TODO-2''
   \<and> fst (handleExecute 5 (Some 2) False user None twoTodoStore) = TaskExecuted 2 0
   \<and> execute_success (fst (handleExecute 5 (Some 2) False user None twoTodoStore))
   \<and> map (\<lambda>t. (task_id t, status t))
        (tasks (snd (handleExecute 5 (Some 2) False user None twoTodoStore)))
     = [(Some 1, completed), (Some 2, completed), (Some 3, completed),
        (Some 4, pending), (Some 5, in_progress), (Some 6, pending)]"
  by code_simp



text \<open>The consensus holds, for every tag, the cleaned text of the last response with that tag.\<close>

lemma fold_consensus_last:
  "fold (\<lambda>r consensus. consensus(agent r \<mapsto> clean (response r))) rs c0 a
     = (case find (\<lambda>r. agent r = a) (rev rs) of
          None \<Rightarrow> c0 a
        | Some r \<Rightarrow> Some (clean (response r)))"
  by (induction rs rule: rev_induct) simp_all

lemma generateConsensus_last:
  "generateConsensus clean rs a
     = map_option (\<lambda>r. clean (response r)) (find (\<lambda>r. agent r = a) (rev rs))"
  by (simp add: generateConsensus_def fold_consensus_last split: option.splits)

text \<open>
  The consensus that \<open>handleCreate\<close> hands to \<open>generateTasksFromAnalysis\<close> is the one of
  \<open>analyzeWithAllAgents\<close> over the six registered agents. When every agent tags its
  response with its own type (as \<open>formatResponse\<close> does) and no cleaned text is empty, it
  holds a non-empty text for each of the six types.
\<close>

lemma consensus_of_all_agents:
  assumes run: "analyzeWithAllAgents lower (initializeAgents a1 a2 a3 a4 a5 a6) ctx = Inr analysis"
    and tags: "\<And>t ag r. (t, ag) \<in> set (initializeAgents a1 a2 a3 a4 a5 a6) \<Longrightarrow> ag ctx = Inr r
                 \<Longrightarrow> agent r = t"
    and texts: "\<And>r. r \<in> set (responses analysis) \<Longrightarrow> clean (response r) \<noteq> []"
  shows "truthy (generateConsensus clean (responses analysis) t)"
proof -
  let ?agents = "initializeAgents a1 a2 a3 a4 a5 a6"
  have rs: "responses analysis = map (analyzeOne ctx) ?agents"
    using run by (auto simp: analyzeWithAllAgents_def Let_def)
  obtain ag where "map_of ?agents t = Some ag"
    using map_of_initializeAgents [of a1 a2 a3 a4 a5 a6 t] by blast
  then have mem: "(t, ag) \<in> set ?agents" by (rule map_of_SomeD)
  have tag: "agent (analyzeOne ctx (t, ag)) = t"
  proof (cases "ag ctx")
    case (Inl e)
    then show ?thesis by (simp add: analyzeOne_throw errorResponse_degraded)
  next
    case (Inr r)
    with tags [OF mem Inr] show ?thesis by (simp add: analyzeOne_def)
  qed
  have "analyzeOne ctx (t, ag) \<in> analyzeOne ctx ` set ?agents" using mem by (rule imageI)
  then have "analyzeOne ctx (t, ag) \<in> set (rev (responses analysis))" by (simp add: rs)
  with tag obtain y where y: "find (\<lambda>r. agent r = t) (rev (responses analysis)) = Some y"
    using find_exists [of "analyzeOne ctx (t, ag)" "rev (responses analysis)" "\<lambda>r. agent r = t"]
    by blast
  from find_mem [OF y] have "y \<in> set (responses analysis)" by simp
  then have "clean (response y) \<noteq> []" by (rule texts)
  then show ?thesis by (simp add: generateConsensus_last y truthy_def)
qed

text \<open>
  The constants of the test task presuppose the implementation task: for a consensus with a
  QA text and no developer text, which no run of \<open>analyzeWithAllAgents\<close> produces, the
  generated list would have a gap.
\<close>

lemma generateTasks_without_developer:
  "map (\<lambda>t. (sequence_number t, owner_agent t, dependencies t))
       (generateTasksFromAnalysis (newTodo ''TODO-1'' ''p'' todo_pending 1) qaOnlyConsensus)
     = [(1, architect, []), (3, qa, [2])]"
  by code_simp



end
